theory Spec2Isabelle
  imports Main "HOL-Library.Word"
begin

unbundle bit_operations_syntax

section \<open>Hotplug pins and ports\<close>

text \<open>
  The driver's enumerations \<^verbatim>\<open>enum hpd_pin\<close> and \<^verbatim>\<open>enum port\<close> are C enumerations,
  that is, integers; the functions below switch over them with a \<^verbatim>\<open>default\<close> branch.
  They are modelled as numbers with named constants, with the values of their declarations
  in the driver's headers \<^verbatim>\<open>i915_drv.h\<close> and \<^verbatim>\<open>intel_display.h\<close> (\<^verbatim>\<open>HPD_NONE\<close> is 0
  and the pins follow in steps of one; \<^verbatim>\<open>PORT_NONE\<close> is -1 and \<^verbatim>\<open>PORT_A\<close> is 0), so
  that every value a variable of the enumeration type can hold is an input of the model.
\<close>

type_synonym hpd_pin = nat
type_synonym port = int

definition HPD_NONE :: hpd_pin where "HPD_NONE = 0"
definition HPD_CRT :: hpd_pin where "HPD_CRT = 1"
definition HPD_SDVO_B :: hpd_pin where "HPD_SDVO_B = 2"
definition HPD_SDVO_C :: hpd_pin where "HPD_SDVO_C = 3"
definition HPD_PORT_A :: hpd_pin where "HPD_PORT_A = 4"
definition HPD_PORT_B :: hpd_pin where "HPD_PORT_B = 5"
definition HPD_PORT_C :: hpd_pin where "HPD_PORT_C = 6"
definition HPD_PORT_D :: hpd_pin where "HPD_PORT_D = 7"
definition HPD_PORT_E :: hpd_pin where "HPD_PORT_E = 8"
definition HPD_PORT_F :: hpd_pin where "HPD_PORT_F = 9"
definition HPD_NUM_PINS :: hpd_pin where "HPD_NUM_PINS = 10"

definition PORT_NONE :: port where "PORT_NONE = - 1"
definition PORT_A :: port where "PORT_A = 0"
definition PORT_B :: port where "PORT_B = 1"
definition PORT_C :: port where "PORT_C = 2"
definition PORT_D :: port where "PORT_D = 3"
definition PORT_E :: port where "PORT_E = 4"
definition PORT_F :: port where "PORT_F = 5"
definition I915_MAX_PORTS :: port where "I915_MAX_PORTS = 6"

lemmas hpd_pin_defs =
  HPD_NONE_def HPD_CRT_def HPD_SDVO_B_def HPD_SDVO_C_def HPD_PORT_A_def HPD_PORT_B_def
  HPD_PORT_C_def HPD_PORT_D_def HPD_PORT_E_def HPD_PORT_F_def HPD_NUM_PINS_def

lemmas port_defs =
  PORT_NONE_def PORT_A_def PORT_B_def PORT_C_def PORT_D_def PORT_E_def PORT_F_def
  I915_MAX_PORTS_def

text \<open>\<^verbatim>\<open>for_each_hpd_pin(i)\<close>: every pin after \<^verbatim>\<open>HPD_NONE\<close>, below \<^verbatim>\<open>HPD_NUM_PINS\<close>.\<close>

definition for_each_hpd_pin :: "hpd_pin list" where
  "for_each_hpd_pin = [HPD_NONE + 1 ..< HPD_NUM_PINS]"

section \<open>Driver state\<close>

text \<open>
  The per-pin statistics \<^verbatim>\<open>hotplug.stats[pin]\<close>: \<^verbatim>\<open>last_jiffies\<close> is an
  \<^verbatim>\<open>unsigned long\<close> (64 bits on the architectures this kernel is built for),
  \<^verbatim>\<open>count\<close> an \<^verbatim>\<open>int\<close>. The array \<^verbatim>\<open>stats\<close> has one entry for each value of the
  enumeration below \<^verbatim>\<open>HPD_NUM_PINS\<close>; the model has an entry for every pin number.
\<close>

datatype hpd_state = HPD_ENABLED | HPD_DISABLED | HPD_MARK_DISABLED

record hpd_stats =
  last_jiffies :: "64 word"
  count :: "32 word"
  state :: hpd_state

text \<open>
  A connector, with the fields this file reads and writes: \<^verbatim>\<open>connector->polled\<close> (the
  polling mode in use), \<^verbatim>\<open>intel_connector->polled\<close> (the connector's own preference),
  the encoder pointer (\<open>None\<close> is \<^verbatim>\<open>NULL\<close>; of the encoder only \<^verbatim>\<open>hpd_pin\<close> is read)
  and whether \<^verbatim>\<open>mst_port\<close> is set.
\<close>

record intel_encoder =
  hpd_pin :: hpd_pin

record connector =
  polled :: "8 word"
  intel_polled :: "8 word"
  encoder :: "intel_encoder option"
  mst_port :: bool

definition DRM_CONNECTOR_POLL_HPD :: "8 word" where "DRM_CONNECTOR_POLL_HPD = push_bit 0 1"
definition DRM_CONNECTOR_POLL_CONNECT :: "8 word" where "DRM_CONNECTOR_POLL_CONNECT = push_bit 1 1"
definition DRM_CONNECTOR_POLL_DISCONNECT :: "8 word" where
  "DRM_CONNECTOR_POLL_DISCONNECT = push_bit 2 1"

text \<open>
  Calls that leave this file, in the order they are made: the platform's
  \<^verbatim>\<open>display.hpd_irq_setup\<close> hook, the two work items queued by the interrupt handler,
  \<^verbatim>\<open>drm_kms_helper_poll_enable\<close>, and \<^verbatim>\<open>mod_delayed_work\<close> on the re-enable work with
  its delay in jiffies.
\<close>

datatype kcall =
  Hpd_irq_setup
  | Queue_dig_port_work
  | Schedule_hotplug_work
  | Poll_enable
  | Mod_reenable_work "64 word"

text \<open>
  \<^verbatim>\<open>struct drm_i915_private\<close>, restricted to what the hotplug code touches. The fields
  of \<^verbatim>\<open>dev_priv->hotplug\<close> are inlined (\<open>stats\<close> to \<open>reenable_work\<close>);
  \<open>irq_port p\<close> says whether \<^verbatim>\<open>hotplug.irq_port[p]\<close> is a registered digital port
  (not \<^verbatim>\<open>NULL\<close>); \<open>reenable_work\<close> is the pending timer of the delayed re-enable work, if
  any; \<open>hpd_irq_setup\<close> says whether the hook \<^verbatim>\<open>display.hpd_irq_setup\<close> is set;
  \<open>cnl_with_port_f\<close> is \<^verbatim>\<open>IS_CNL_WITH_PORT_F(dev_priv)\<close>; \<open>connectors\<close> is the
  connector list of \<^verbatim>\<open>dev_priv->drm\<close> in iteration order; \<open>calls\<close> logs the outgoing
  calls. The threshold \<^verbatim>\<open>hpd_storm_threshold\<close> is an \<^verbatim>\<open>unsigned int\<close>, kept as its 32
  bits; the storm detector reads it into an \<^verbatim>\<open>int\<close>. Locks, runtime-PM references (taken and
  released in pairs), debug messages and warnings are not modelled: the model is sequential.
\<close>

record drm_i915_private =
  stats :: "hpd_pin \<Rightarrow> hpd_stats"
  event_bits :: "32 word"
  irq_port :: "nat \<Rightarrow> bool"
  long_port_mask :: "32 word"
  short_port_mask :: "32 word"
  hpd_storm_threshold :: "32 word"
  hpd_short_storm_enabled :: bool
  reenable_work :: "64 word option"
  display_irqs_enabled :: bool
  hpd_irq_setup :: bool
  cnl_with_port_f :: bool
  connectors :: "connector list"
  calls :: "kcall list"

section \<open>Pin and port mapping\<close>

definition intel_hpd_pin_to_port :: "drm_i915_private \<Rightarrow> hpd_pin \<Rightarrow> port" where
  "intel_hpd_pin_to_port dev_priv pin =
     (if pin = HPD_PORT_A then PORT_A
      else if pin = HPD_PORT_B then PORT_B
      else if pin = HPD_PORT_C then PORT_C
      else if pin = HPD_PORT_D then PORT_D
      else if pin = HPD_PORT_E then (if cnl_with_port_f dev_priv then PORT_F else PORT_E)
      else if pin = HPD_PORT_F then PORT_F
      else PORT_NONE)"

definition intel_hpd_pin_default :: "drm_i915_private \<Rightarrow> port \<Rightarrow> hpd_pin" where
  "intel_hpd_pin_default dev_priv port =
     (if port = PORT_A then HPD_PORT_A
      else if port = PORT_B then HPD_PORT_B
      else if port = PORT_C then HPD_PORT_C
      else if port = PORT_D then HPD_PORT_D
      else if port = PORT_E then HPD_PORT_E
      else if port = PORT_F then (if cnl_with_port_f dev_priv then HPD_PORT_E else HPD_PORT_F)
      else HPD_NONE)"

section \<open>Kernel helpers\<close>

text \<open>
  Jiffies comparisons of \<^verbatim>\<open>linux/jiffies.h\<close>, which are safe against wrap-around of the
  counter: \<^verbatim>\<open>time_after_eq(a,b)\<close> is \<^verbatim>\<open>(long)((a) - (b)) >= 0\<close>,
  \<^verbatim>\<open>time_before_eq(a,b)\<close> is \<^verbatim>\<open>time_after_eq(b,a)\<close>, and \<^verbatim>\<open>time_in_range(a,b,c)\<close>
  is \<^verbatim>\<open>time_after_eq(a,b) && time_before_eq(a,c)\<close>: both ends of the range are inside.
\<close>

definition time_after_eq :: "64 word \<Rightarrow> 64 word \<Rightarrow> bool" where
  "time_after_eq a b = (0 \<le>s a - b)"

definition time_before_eq :: "64 word \<Rightarrow> 64 word \<Rightarrow> bool" where
  "time_before_eq a b = time_after_eq b a"

definition time_in_range :: "64 word \<Rightarrow> 64 word \<Rightarrow> 64 word \<Rightarrow> bool" where
  "time_in_range a b c = (time_after_eq a b \<and> time_before_eq a c)"

text \<open>
  \<^verbatim>\<open>BIT(i)\<close>, used on the 32-bit masks of this file with \<open>i\<close> a pin number below 32.
\<close>

definition BIT :: "nat \<Rightarrow> 32 word" where
  "BIT i = push_bit i 1"

definition HPD_STORM_DETECT_PERIOD :: nat where
  "HPD_STORM_DETECT_PERIOD = 1000"


text \<open>Assignment to one field of \<^verbatim>\<open>hotplug.stats[pin]\<close>.\<close>

definition stats_upd :: "hpd_pin \<Rightarrow> (hpd_stats \<Rightarrow> hpd_stats) \<Rightarrow> drm_i915_private \<Rightarrow> drm_i915_private" where
  "stats_upd pin f dev_priv = dev_priv\<lparr>stats := (stats dev_priv)(pin := f (stats dev_priv pin))\<rparr>"

section \<open>Storm detection\<close>

text \<open>
  \<^verbatim>\<open>intel_hpd_irq_storm_detect\<close>. The conversion \<^verbatim>\<open>msecs_to_jiffies\<close> depends on the
  kernel's tick rate and is a parameter (\<open>m2j\<close>); \<open>jiffies\<close> is the value of the
  counter during the call (its two reads in the call are taken to give the same value). The local \<^verbatim>\<open>threshold\<close> is an \<^verbatim>\<open>int\<close>, so the comparison
  with the count is signed. The result is the returned flag and the driver state after the
  call.
\<close>

definition intel_hpd_irq_storm_detect ::
  "(nat \<Rightarrow> 64 word) \<Rightarrow> 64 word \<Rightarrow> drm_i915_private \<Rightarrow> hpd_pin \<Rightarrow> bool
     \<Rightarrow> bool \<times> drm_i915_private" where
  "intel_hpd_irq_storm_detect m2j jiffies dev_priv pin long_hpd =
     (let start = last_jiffies (stats dev_priv pin);
          end_j = start + m2j HPD_STORM_DETECT_PERIOD;
          increment = (if long_hpd then 10 else 1);
          threshold = hpd_storm_threshold dev_priv
      in if threshold = 0 \<or> (\<not> long_hpd \<and> \<not> hpd_short_storm_enabled dev_priv)
         then (False, dev_priv)
         else
           let d1 = (if \<not> time_in_range jiffies start end_j
                     then stats_upd pin (\<lambda>s. s\<lparr>count := 0\<rparr>)
                            (stats_upd pin (\<lambda>s. s\<lparr>last_jiffies := jiffies\<rparr>) dev_priv)
                     else dev_priv);
               d2 = stats_upd pin (\<lambda>s. s\<lparr>count := count s + increment\<rparr>) d1
           in if threshold <s count (stats d2 pin)
              then (True, stats_upd pin (\<lambda>s. s\<lparr>state := HPD_MARK_DISABLED\<rparr>) d2)
              else (False, d2))"

text \<open>
  A series of pulses on one pin, each with the time it is handled at and its length: the
  detector is called once per pulse, on the state the previous call left.
\<close>

fun storm_detect_pulses ::
  "(nat \<Rightarrow> 64 word) \<Rightarrow> hpd_pin \<Rightarrow> (64 word \<times> bool) list \<Rightarrow> drm_i915_private
     \<Rightarrow> bool list \<times> drm_i915_private" where
  "storm_detect_pulses m2j pin [] dev_priv = ([], dev_priv)"
| "storm_detect_pulses m2j pin ((t, long_hpd) # ps) dev_priv =
     (let (storm, d1) = intel_hpd_irq_storm_detect m2j t dev_priv pin long_hpd;
          (storms, d2) = storm_detect_pulses m2j pin ps d1
      in (storm # storms, d2))"

section \<open>Switching to polling\<close>





section \<open>Re-enabling after a storm\<close>

text \<open>
  The inner loop of \<^verbatim>\<open>intel_hpd_irq_storm_reenable_work\<close> over the connectors, for the
  pin \<open>i\<close>. The test \<^verbatim>\<open>!intel_connector->mst_port && intel_connector->encoder->hpd_pin == i\<close>
  reads through the encoder pointer of every connector that is not an MST connector; where
  that pointer is \<^verbatim>\<open>NULL\<close> the kernel faults, which is the result \<open>None\<close>.
\<close>

fun reenable_connectors :: "hpd_pin \<Rightarrow> connector list \<Rightarrow> connector list option" where
  "reenable_connectors i [] = Some []"
| "reenable_connectors i (c # cs) =
     (if mst_port c then map_option ((#) c) (reenable_connectors i cs)
      else case encoder c of
        None \<Rightarrow> None
      | Some intel_encoder \<Rightarrow>
          (let c2 = (if hpd_pin intel_encoder = i then
                       (let c1 = c\<lparr>polled := intel_polled c\<rparr>
                        in if polled c1 = 0 then c1\<lparr>polled := DRM_CONNECTOR_POLL_HPD\<rparr> else c1)
                     else c)
           in map_option ((#) c2) (reenable_connectors i cs)))"

text \<open>The outer loop, over the pins.\<close>

fun reenable_loop :: "hpd_pin list \<Rightarrow> drm_i915_private \<Rightarrow> drm_i915_private option" where
  "reenable_loop [] dev_priv = Some dev_priv"
| "reenable_loop (i # pins) dev_priv =
     (if state (stats dev_priv i) \<noteq> HPD_DISABLED then reenable_loop pins dev_priv
      else
        (let d1 = stats_upd i (\<lambda>s. s\<lparr>state := HPD_ENABLED\<rparr>) dev_priv
         in case reenable_connectors i (connectors d1) of
              None \<Rightarrow> None
            | Some cs' \<Rightarrow> reenable_loop pins (d1\<lparr>connectors := cs'\<rparr>)))"

text \<open>
  A call through the hook \<^verbatim>\<open>display.hpd_irq_setup\<close>: logged when the hook is set, a fault
  (\<open>None\<close>) when the pointer is \<^verbatim>\<open>NULL\<close>.
\<close>

definition call_hpd_irq_setup :: "drm_i915_private \<Rightarrow> drm_i915_private option" where
  "call_hpd_irq_setup dev_priv =
     (if hpd_irq_setup dev_priv then Some (dev_priv\<lparr>calls := calls dev_priv @ [Hpd_irq_setup]\<rparr>)
      else None)"

definition intel_hpd_irq_storm_reenable_work :: "drm_i915_private \<Rightarrow> drm_i915_private option" where
  "intel_hpd_irq_storm_reenable_work dev_priv =
     (case reenable_loop for_each_hpd_pin dev_priv of
        None \<Rightarrow> None
      | Some d1 \<Rightarrow>
          if display_irqs_enabled d1 \<and> hpd_irq_setup d1 then call_hpd_irq_setup d1 else Some d1)"

section \<open>The interrupt handler\<close>

text \<open>
  The state of the loop of \<^verbatim>\<open>intel_hpd_irq_handler\<close>: the driver state and the three
  flags the loop sets.
\<close>

record irq_loop =
  dev :: drm_i915_private
  storm_detected :: bool
  queue_dig :: bool
  queue_hp :: bool

text \<open>
  The body of the loop for the pin \<open>i\<close>. The jiffies counter may advance while the loop
  runs, so it is given as the value \<open>jiffies_at i\<close> that the storm detector reads when it
  is called for \<open>i\<close>.
\<close>

definition irq_handler_pin ::
  "(nat \<Rightarrow> 64 word) \<Rightarrow> (hpd_pin \<Rightarrow> 64 word) \<Rightarrow> 32 word \<Rightarrow> 32 word \<Rightarrow> hpd_pin
     \<Rightarrow> irq_loop \<Rightarrow> irq_loop" where
  "irq_handler_pin m2j jiffies_at pin_mask long_mask i l =
     (if BIT i AND pin_mask = 0 then l
      else
        (let port = intel_hpd_pin_to_port (dev l) i;
             is_dig_port = (port \<noteq> PORT_NONE \<and> irq_port (dev l) (nat port));
             long_hpd = (if is_dig_port then long_mask AND BIT i \<noteq> 0 else True);
             l1 = (if is_dig_port then
                     (if long_hpd
                      then l\<lparr>dev := (dev l)\<lparr>long_port_mask :=
                                long_port_mask (dev l) OR push_bit (nat port) 1\<rparr>,
                             queue_dig := True\<rparr>
                      else l\<lparr>dev := (dev l)\<lparr>short_port_mask :=
                                short_port_mask (dev l) OR push_bit (nat port) 1\<rparr>,
                             queue_dig := True\<rparr>)
                   else l)
         in if state (stats (dev l1) i) = HPD_DISABLED then l1
            else if state (stats (dev l1) i) \<noteq> HPD_ENABLED then l1
            else
              (let l2 = (if \<not> is_dig_port
                         then l1\<lparr>dev := (dev l1)\<lparr>event_bits := event_bits (dev l1) OR BIT i\<rparr>,
                                 queue_hp := True\<rparr>
                         else l1);
                   (storm, d3) = intel_hpd_irq_storm_detect m2j (jiffies_at i) (dev l2) i long_hpd
               in if storm
                  then l2\<lparr>dev := d3\<lparr>event_bits := event_bits d3 AND NOT (BIT i)\<rparr>,
                          storm_detected := True, queue_hp := True\<rparr>
                  else l2\<lparr>dev := d3\<rparr>)))"

definition queue_dig_port_work :: "drm_i915_private \<Rightarrow> drm_i915_private" where
  "queue_dig_port_work dev_priv = dev_priv\<lparr>calls := calls dev_priv @ [Queue_dig_port_work]\<rparr>"

definition schedule_hotplug_work :: "drm_i915_private \<Rightarrow> drm_i915_private" where
  "schedule_hotplug_work dev_priv = dev_priv\<lparr>calls := calls dev_priv @ [Schedule_hotplug_work]\<rparr>"

text \<open>
  \<^verbatim>\<open>intel_hpd_irq_handler\<close>. After the loop the hook is called without a test of the
  pointer, when a storm was detected and display interrupts are enabled.
\<close>

definition intel_hpd_irq_handler ::
  "(nat \<Rightarrow> 64 word) \<Rightarrow> (hpd_pin \<Rightarrow> 64 word) \<Rightarrow> drm_i915_private \<Rightarrow> 32 word \<Rightarrow> 32 word
     \<Rightarrow> drm_i915_private option" where
  "intel_hpd_irq_handler m2j jiffies_at dev_priv pin_mask long_mask =
     (if pin_mask = 0 then Some dev_priv
      else
        (let l = fold (irq_handler_pin m2j jiffies_at pin_mask long_mask) for_each_hpd_pin
                   \<lparr>dev = dev_priv, storm_detected = False, queue_dig = False, queue_hp = False\<rparr>
         in case (if storm_detected l \<and> display_irqs_enabled (dev l)
                  then call_hpd_irq_setup (dev l) else Some (dev l)) of
              None \<Rightarrow> None
            | Some d1 \<Rightarrow>
                (let d2 = (if queue_dig l then queue_dig_port_work d1 else d1)
                 in Some (if queue_hp l then schedule_hotplug_work d2 else d2))))"

section \<open>Administrative disable\<close>

definition intel_hpd_disable :: "drm_i915_private \<Rightarrow> hpd_pin \<Rightarrow> bool \<times> drm_i915_private" where
  "intel_hpd_disable dev_priv pin =
     (if pin = HPD_NONE then (False, dev_priv)
      else if state (stats dev_priv pin) = HPD_ENABLED
           then (True, stats_upd pin (\<lambda>s. s\<lparr>state := HPD_DISABLED\<rparr>) dev_priv)
           else (False, dev_priv))"

section \<open>Notions used in the statements\<close>

text \<open>
  The values of the interrupt handler's locals \<^verbatim>\<open>is_dig_port\<close> and \<^verbatim>\<open>long_hpd\<close> for a
  pin, as functions of the driver state and the mask of long pulses.
\<close>

definition is_dig_port :: "drm_i915_private \<Rightarrow> hpd_pin \<Rightarrow> bool" where
  "is_dig_port dev_priv i =
     (intel_hpd_pin_to_port dev_priv i \<noteq> PORT_NONE
      \<and> irq_port dev_priv (nat (intel_hpd_pin_to_port dev_priv i)))"

definition long_hpd_of :: "drm_i915_private \<Rightarrow> 32 word \<Rightarrow> hpd_pin \<Rightarrow> bool" where
  "long_hpd_of dev_priv long_mask i =
     (if is_dig_port dev_priv i then long_mask AND BIT i \<noteq> 0 else True)"

text \<open>Two driver states that differ at most in the statistics and the three masks.\<close>

definition same_config :: "drm_i915_private \<Rightarrow> drm_i915_private \<Rightarrow> bool" where
  "same_config d d' \<longleftrightarrow>
     irq_port d' = irq_port d \<and> cnl_with_port_f d' = cnl_with_port_f d
     \<and> hpd_storm_threshold d' = hpd_storm_threshold d
     \<and> hpd_short_storm_enabled d' = hpd_short_storm_enabled d
     \<and> display_irqs_enabled d' = display_irqs_enabled d
     \<and> hpd_irq_setup d' = hpd_irq_setup d
     \<and> connectors d' = connectors d \<and> calls d' = calls d
     \<and> reenable_work d' = reenable_work d"

text \<open>
  The pin of a connector (\<^verbatim>\<open>encoder->hpd_pin\<close>, \<open>HPD_NONE\<close> without an encoder); a
  connector that has an encoder on the pin \<open>p\<close> and is in hotplug mode
  (\<^verbatim>\<open>DRM_CONNECTOR_POLL_HPD\<close>); and a connector that the loop of
  \<^verbatim>\<open>intel_hpd_irq_storm_switch_to_polling\<close> switches in the state \<open>d\<close>.
\<close>

definition conn_pin :: "connector \<Rightarrow> hpd_pin" where
  "conn_pin c = (case encoder c of Some e \<Rightarrow> hpd_pin e | None \<Rightarrow> HPD_NONE)"



text \<open>
  A connector with its polling mode restored to its own preference, hotplug mode if it has
  none; the driver state with the disabled pins among \<open>pins\<close> enabled and their connectors
  restored; and a connector list in which every connector that is not an MST connector has
  an encoder.
\<close>

definition restore_polled :: "connector \<Rightarrow> connector" where
  "restore_polled c =
     c\<lparr>polled := (if intel_polled c = 0 then DRM_CONNECTOR_POLL_HPD else intel_polled c)\<rparr>"

definition reenabled :: "hpd_pin list \<Rightarrow> drm_i915_private \<Rightarrow> drm_i915_private" where
  "reenabled pins d =
     d\<lparr>stats := (\<lambda>p. if p \<in> set pins \<and> state (stats d p) = HPD_DISABLED
                      then (stats d p)\<lparr>state := HPD_ENABLED\<rparr> else stats d p),
       connectors := map (\<lambda>c. if \<not> mst_port c \<and> conn_pin c \<in> set pins
                                  \<and> state (stats d (conn_pin c)) = HPD_DISABLED
                               then restore_polled c else c) (connectors d)\<rparr>"

definition encoders_set :: "connector list \<Rightarrow> bool" where
  "encoders_set cs \<longleftrightarrow> list_all (\<lambda>c. mst_port c \<or> encoder c \<noteq> None) cs"

section \<open>An example state\<close>

text \<open>
  The state \<^verbatim>\<open>intel_hpd_init\<close> leaves, with every pin enabled and every count 0, on a
  machine with no connector and no digital port, a storm threshold of 5 and short pulses
  not counted. The concrete evaluations below start from it.
\<close>

definition example_stats :: hpd_stats where
  "example_stats = \<lparr>last_jiffies = 0, count = 0, state = HPD_ENABLED\<rparr>"

definition example_dev_priv :: drm_i915_private where
  "example_dev_priv =
     \<lparr>stats = (\<lambda>_. example_stats), event_bits = 0, irq_port = (\<lambda>_. False),
      long_port_mask = 0, short_port_mask = 0, hpd_storm_threshold = 5,
      hpd_short_storm_enabled = False, reenable_work = None, display_irqs_enabled = True,
      hpd_irq_setup = True, cnl_with_port_f = False, connectors = [], calls = []\<rparr>"

text \<open>
  A connector with an encoder on the pin \<open>p\<close> whose polling mode and preference are
  \<open>mode\<close>. Then three states: one with pin B disabled and port B a registered digital
  port; one after storms on the pins A and B, where the connector of pin A is polled and
  the connector of pin B is in hotplug mode, and a re-enable timer is still pending; and one
  in which the connector of pin B has been switched to polling and the pin disabled.
\<close>

definition example_connector :: "hpd_pin \<Rightarrow> 8 word \<Rightarrow> connector" where
  "example_connector p mode =
     \<lparr>polled = mode, intel_polled = mode, encoder = Some \<lparr>hpd_pin = p\<rparr>, mst_port = False\<rparr>"

definition example_dig_dev_priv :: drm_i915_private where
  "example_dig_dev_priv =
     stats_upd HPD_PORT_B (\<lambda>s. s\<lparr>state := HPD_DISABLED\<rparr>)
       (example_dev_priv\<lparr>irq_port := (\<lambda>p. p = nat PORT_B)\<rparr>)"


definition example_polling_dev_priv :: drm_i915_private where
  "example_polling_dev_priv =
     stats_upd HPD_PORT_B (\<lambda>s. s\<lparr>state := HPD_DISABLED\<rparr>)
       (example_dev_priv\<lparr>connectors :=
          [example_connector HPD_PORT_A DRM_CONNECTOR_POLL_CONNECT,
           (example_connector HPD_PORT_B DRM_CONNECTOR_POLL_HPD)
             \<lparr>polled := DRM_CONNECTOR_POLL_CONNECT OR DRM_CONNECTOR_POLL_DISCONNECT\<rparr>]\<rparr>)"

section \<open>Signed values and the jiffies window\<close>

lemma sint_cases:
  "sint (w :: 'a::len word) =
     (if uint w < 2 ^ (LENGTH('a) - 1) then uint w else uint w - 2 ^ LENGTH('a))"
proof -
  define n where "n = LENGTH('a) - 1"
  have len: "LENGTH('a) = Suc n" by (simp add: n_def)
  have b: "0 \<le> uint w" "uint w < 2 * 2 ^ n"
    using uint_bounded [of w] by (simp_all add: len)
  have "sint w = (uint w + 2 ^ n) mod (2 * 2 ^ n) - 2 ^ n"
    by (simp add: sint_uint len signed_take_bit_eq_take_bit_shift take_bit_eq_mod)
  also have "\<dots> = (if uint w < 2 ^ n then uint w else uint w - 2 * 2 ^ n)"
  proof (cases "uint w < 2 ^ n")
    case True
    then have "(uint w + 2 ^ n) mod (2 * 2 ^ n) = uint w + 2 ^ n"
      using b by (intro mod_pos_pos_trivial) simp_all
    with True show ?thesis by simp
  next
    case False
    have "(uint w + 2 ^ n) mod (2 * 2 ^ n) = (uint w + 2 ^ n - 2 * 2 ^ n) mod (2 * 2 ^ n)"
      by (simp only: minus_mod_self2)
    also have "\<dots> = uint w + 2 ^ n - 2 * 2 ^ n"
      using b False by (intro mod_pos_pos_trivial) simp_all
    finally have "(uint w + 2 ^ n) mod (2 * 2 ^ n) = uint w + 2 ^ n - 2 * 2 ^ n" .
    with False show ?thesis by simp
  qed
  finally show ?thesis by (simp add: len)
qed

lemma window_arith:
  fixes ud up :: int
  assumes "0 \<le> ud" "ud < 2 ^ 64" "0 \<le> up" "up < 2 ^ 63"
  shows "(0 \<le> (if ud < 2 ^ 63 then ud else ud - 2 ^ 64)
          \<and> 0 \<le> (if (if ud \<le> up then up - ud else up - ud + 2 ^ 64) < 2 ^ 63
                   then (if ud \<le> up then up - ud else up - ud + 2 ^ 64)
                   else (if ud \<le> up then up - ud else up - ud + 2 ^ 64) - 2 ^ 64))
         \<longleftrightarrow> ud \<le> up"
  using assms by (auto split: if_splits)

text \<open>
  For a period below half the range of the counter, \<^verbatim>\<open>time_in_range\<close> from \<open>b\<close> to
  \<open>b + p\<close> holds exactly for the times whose distance from \<open>b\<close>, counted on the wrapping
  counter, is at most \<open>p\<close>.
\<close>

lemma time_in_range_iff:
  fixes a b p :: "64 word"
  assumes p: "unat p < 2 ^ 63"
  shows "time_in_range a b (b + p) \<longleftrightarrow> unat (a - b) \<le> unat p"
proof -
  define d where "d = a - b"
  have e: "b + p - a = p - d" by (simp add: d_def)
  have "int (unat p) < 2 ^ 63" using p by (simp only: of_nat_less_numeral_power_cancel_iff)
  then have up: "uint p < 2 ^ 63" by (simp only: uint_nat)
  have bd: "0 \<le> uint d" "uint d < 2 ^ 64" "0 \<le> uint p"
    using uint_bounded [of d] by simp_all
  have sub: "uint (p - d) = (if uint d \<le> uint p then uint p - uint d else uint p - uint d + 2 ^ 64)"
    by (simp add: uint_sub_if')
  have sd: "sint d = (if uint d < 2 ^ 63 then uint d else uint d - 2 ^ 64)"
    by (simp add: sint_cases)
  have sp: "sint (p - d) =
      (if (if uint d \<le> uint p then uint p - uint d else uint p - uint d + 2 ^ 64) < 2 ^ 63
       then (if uint d \<le> uint p then uint p - uint d else uint p - uint d + 2 ^ 64)
       else (if uint d \<le> uint p then uint p - uint d else uint p - uint d + 2 ^ 64) - 2 ^ 64)"
    unfolding sub [symmetric] by (simp add: sint_cases)
  have "time_in_range a b (b + p) \<longleftrightarrow> 0 \<le> sint d \<and> 0 \<le> sint (p - d)"
    by (simp add: time_in_range_def time_after_eq_def time_before_eq_def word_sle_eq e d_def)
  also have "\<dots> \<longleftrightarrow> uint d \<le> uint p"
    unfolding sd sp by (rule window_arith [OF bd(1) bd(2) bd(3) up])
  also have "\<dots> \<longleftrightarrow> unat d \<le> unat p"
    by (simp add: word_le_nat_alt [symmetric] word_le_def)
  finally show ?thesis by (simp add: d_def)
qed

lemma sint_add_no_overflow:
  fixes a b :: "32 word"
  assumes "- (2 ^ 31) \<le> sint a + sint b" "sint a + sint b < 2 ^ 31"
  shows "sint (a + b) = sint a + sint b"
  using assms by (simp add: sint_word_add signed_take_bit_int_eq_self)

section \<open>The storm detector\<close>

text \<open>The detector in closed form: what it returns and the one entry of \<open>stats\<close> it writes.\<close>

lemma storm_detect_eq:
  "intel_hpd_irq_storm_detect m2j j d pin long_hpd =
     (if hpd_storm_threshold d = 0 \<or> (\<not> long_hpd \<and> \<not> hpd_short_storm_enabled d)
      then (False, d)
      else
        (let s = stats d pin;
             inr = time_in_range j (last_jiffies s) (last_jiffies s + m2j HPD_STORM_DETECT_PERIOD);
             c = (if inr then count s else 0) + (if long_hpd then 10 else 1);
             storm = hpd_storm_threshold d <s c
         in (storm,
             d\<lparr>stats := (stats d)(pin :=
                  s\<lparr>last_jiffies := (if inr then last_jiffies s else j), count := c,
                    state := (if storm then HPD_MARK_DISABLED else state s)\<rparr>)\<rparr>)))"
  by (simp add: intel_hpd_irq_storm_detect_def stats_upd_def Let_def)

lemma storm_detect_config:
  "hpd_storm_threshold (snd (intel_hpd_irq_storm_detect m2j t d pin long_hpd)) = hpd_storm_threshold d"
  "hpd_short_storm_enabled (snd (intel_hpd_irq_storm_detect m2j t d pin long_hpd)) =
     hpd_short_storm_enabled d"
  by (simp_all add: storm_detect_eq Let_def)

lemma storm_detect_window_start:
  assumes "hpd_storm_threshold d \<noteq> 0" "long_hpd \<or> hpd_short_storm_enabled d"
    and "unat (m2j HPD_STORM_DETECT_PERIOD) < 2 ^ 63"
  shows "unat (t - last_jiffies (stats (snd (intel_hpd_irq_storm_detect m2j t d pin long_hpd)) pin))
           \<le> unat (m2j HPD_STORM_DETECT_PERIOD)"
  using assms by (auto simp add: storm_detect_eq Let_def time_in_range_iff)

lemma storm_detect_outside:
  assumes "hpd_storm_threshold d \<noteq> 0" "long_hpd \<or> hpd_short_storm_enabled d"
    and "unat (m2j HPD_STORM_DETECT_PERIOD) < 2 ^ 63"
    and "unat (m2j HPD_STORM_DETECT_PERIOD) < unat (t - last_jiffies (stats d pin))"
  shows "last_jiffies (stats (snd (intel_hpd_irq_storm_detect m2j t d pin long_hpd)) pin) = t"
    and "count (stats (snd (intel_hpd_irq_storm_detect m2j t d pin long_hpd)) pin) =
           (if long_hpd then 10 else 1)"
  using assms by (auto simp add: storm_detect_eq Let_def time_in_range_iff)

lemma storm_detect_pulses_gated:
  assumes "hpd_storm_threshold d = 0
    \<or> (\<not> hpd_short_storm_enabled d \<and> (\<forall>p \<in> set ps. \<not> snd p))"
  shows "storm_detect_pulses m2j pin ps d = (replicate (length ps) False, d)"
  using assms by (induction ps) (auto simp add: storm_detect_eq)

text \<open>
  The detector for a threshold \<open>T\<close> in the range of \<^verbatim>\<open>int\<close>, \<open>0 < T < 2^31\<close>. For
  every pin and every pulse, with short pulses counted when the pulse is short, a call adds
  10 to the pin's count for a long pulse and 1 for a short one, the count being taken as 0
  when the call is outside the pin's window; it returns true exactly when the resulting count
  exceeds \<open>T\<close>, and then the pin's state is \<open>HPD_MARK_DISABLED\<close>; otherwise it returns
  false and the state is as before. As long as the sum stays below \<open>2^31\<close> the addition
  is the addition of integers.
\<close>

theorem storm_detect_counts:
  assumes "hpd_storm_threshold dev_priv \<noteq> 0"
    and "uint (hpd_storm_threshold dev_priv) < 2 ^ 31"
    and "long_hpd \<or> hpd_short_storm_enabled dev_priv"
    and "intel_hpd_irq_storm_detect m2j jiffies dev_priv pin long_hpd = (storm, d')"
    and "base = (if time_in_range jiffies (last_jiffies (stats dev_priv pin))
                      (last_jiffies (stats dev_priv pin) + m2j HPD_STORM_DETECT_PERIOD)
                 then count (stats dev_priv pin) else 0)"
  shows "count (stats d' pin) = base + (if long_hpd then 10 else 1)
         \<and> (sint base + (if long_hpd then 10 else 1) < 2 ^ 31 \<longrightarrow>
              sint (count (stats d' pin)) = sint base + (if long_hpd then 10 else 1))
         \<and> storm = (uint (hpd_storm_threshold dev_priv) < sint (count (stats d' pin)))
         \<and> state (stats d' pin) = (if storm then HPD_MARK_DISABLED else state (stats dev_priv pin))"
proof -
  have t: "sint (hpd_storm_threshold dev_priv) = uint (hpd_storm_threshold dev_priv)"
    using assms(2) by (simp add: sint_cases)
  have c: "count (stats d' pin) = base + (if long_hpd then 10 else 1)"
    and s: "storm = (sint (hpd_storm_threshold dev_priv) < sint (count (stats d' pin)))"
    and st: "state (stats d' pin) = (if storm then HPD_MARK_DISABLED else state (stats dev_priv pin))"
    using assms(1,3,4,5) by (auto simp add: storm_detect_eq Let_def word_sless_alt)
  have lo: "- (2 ^ 31) \<le> sint base"
    using sint_ge [of base] by simp
  have "sint (base + 10) = sint base + 10" if "sint base + 10 < 2 ^ 31"
    using sint_add_no_overflow [of base 10] lo that by simp
  moreover have "sint (base + 1) = sint base + 1" if "sint base + 1 < 2 ^ 31"
    using sint_add_no_overflow [of base 1] lo that by simp
  ultimately have "sint base + (if long_hpd then 10 else 1) < 2 ^ 31 \<longrightarrow>
      sint (count (stats d' pin)) = sint base + (if long_hpd then 10 else 1)"
    by (simp add: c)
  with c s st t show ?thesis by simp
qed

theorem storm_detect_counts_witness:
  "count (stats (snd (intel_hpd_irq_storm_detect of_nat 0 example_dev_priv HPD_PORT_A True))
      HPD_PORT_A) = 10
   \<and> sint (count (stats (snd (intel_hpd_irq_storm_detect of_nat 0 example_dev_priv HPD_PORT_A True))
      HPD_PORT_A)) = 10
   \<and> fst (intel_hpd_irq_storm_detect of_nat 0 example_dev_priv HPD_PORT_A True)
   \<and> state (stats (snd (intel_hpd_irq_storm_detect of_nat 0 example_dev_priv HPD_PORT_A True))
      HPD_PORT_A) = HPD_MARK_DISABLED"
  using storm_detect_counts [of example_dev_priv True of_nat 0 HPD_PORT_A
      "fst (intel_hpd_irq_storm_detect of_nat 0 example_dev_priv HPD_PORT_A True)"
      "snd (intel_hpd_irq_storm_detect of_nat 0 example_dev_priv HPD_PORT_A True)" 0]
  by (simp add: example_dev_priv_def example_stats_def time_in_range_def time_after_eq_def
      time_before_eq_def HPD_STORM_DETECT_PERIOD_def word_sle_eq split: if_splits)

text \<open>
  C1. The claim is for every threshold \<open>T > 0\<close>, and the comment of
  \<^verbatim>\<open>intel_hpd_irq_storm_detect\<close> has a storm when the threshold stored in
  \<^verbatim>\<open>hpd_storm_threshold\<close> is exceeded. The code reads that \<^verbatim>\<open>unsigned int\<close> into
  \<^verbatim>\<open>const int threshold\<close>, so a stored threshold from \<open>2^31\<close> on is a negative number
  in the comparison. With the threshold 2147483648, one long pulse on an enabled pin whose
  count is 0 leaves the count 10, which does not exceed the threshold, and the detector
  returns true and marks the pin disabled.
\<close>

theorem storm_detect_threshold_sign:
  "uint (hpd_storm_threshold (example_dev_priv\<lparr>hpd_storm_threshold := 2147483648\<rparr>)) = 2147483648
   \<and> state (stats (example_dev_priv\<lparr>hpd_storm_threshold := 2147483648\<rparr>) HPD_PORT_A) = HPD_ENABLED
   \<and> count (stats (example_dev_priv\<lparr>hpd_storm_threshold := 2147483648\<rparr>) HPD_PORT_A) = 0
   \<and> intel_hpd_irq_storm_detect of_nat 0
        (example_dev_priv\<lparr>hpd_storm_threshold := 2147483648\<rparr>) HPD_PORT_A True
      = (True, stats_upd HPD_PORT_A (\<lambda>s. s\<lparr>count := 10, state := HPD_MARK_DISABLED\<rparr>)
                 (example_dev_priv\<lparr>hpd_storm_threshold := 2147483648\<rparr>))
   \<and> \<not> uint (hpd_storm_threshold (example_dev_priv\<lparr>hpd_storm_threshold := 2147483648\<rparr>))
         < sint (10 :: 32 word)"
  by (simp add: storm_detect_eq example_dev_priv_def example_stats_def stats_upd_def
      time_in_range_def time_after_eq_def time_before_eq_def HPD_STORM_DETECT_PERIOD_def
      word_sle_eq word_sless_alt Let_def)

text \<open>
  C2, as the claim states it, fails on the end of the window. With one jiffy per
  millisecond, a window that started at 0 and a count of 10, a long pulse at time 1000 is
  outside the half-open window from 0 to 1000, and yet the detector keeps the window and
  counts on, to 20.
\<close>

theorem storm_detect_window_counterexample:
  "(1000 :: 64 word) \<notin> {0 ..< 0 + of_nat HPD_STORM_DETECT_PERIOD}
   \<and> last_jiffies (stats (stats_upd HPD_PORT_A (\<lambda>s. s\<lparr>count := 10\<rparr>)
         (example_dev_priv\<lparr>hpd_storm_threshold := 50\<rparr>)) HPD_PORT_A) = 0
   \<and> snd (intel_hpd_irq_storm_detect of_nat 1000
        (stats_upd HPD_PORT_A (\<lambda>s. s\<lparr>count := 10\<rparr>)
           (example_dev_priv\<lparr>hpd_storm_threshold := 50\<rparr>))
        HPD_PORT_A True)
      = stats_upd HPD_PORT_A (\<lambda>s. s\<lparr>count := 20\<rparr>)
          (example_dev_priv\<lparr>hpd_storm_threshold := 50\<rparr>)"
  by (simp add: storm_detect_eq example_dev_priv_def example_stats_def stats_upd_def
      time_in_range_def time_after_eq_def time_before_eq_def HPD_STORM_DETECT_PERIOD_def
      word_sle_eq word_sless_alt Let_def)

text \<open>
  C2, amended. The window is closed at both ends: whenever a call of the storm detector
  that counts its pulse (threshold not 0, short pulses counted if the pulse is short) comes
  at a time whose distance from the start of the pin's window, on the wrapping jiffies
  counter, is more than the detection period of 1000 ms, the start of the window becomes that
  time and the count starts again from 0, so that it holds the weight of the new pulse only.
  Consequently, of two pulses on a pin that are more than one period apart (and less than
  the range of the counter minus a period), the second never adds to a count that holds the
  first. The period in jiffies is below half the range of the counter.
\<close>

theorem storm_detect_window_reset:
  assumes thr: "hpd_storm_threshold dev_priv \<noteq> 0"
    and g1: "long1 \<or> hpd_short_storm_enabled dev_priv"
    and g2: "long2 \<or> hpd_short_storm_enabled dev_priv"
    and per: "unat (m2j HPD_STORM_DETECT_PERIOD) < 2 ^ 63"
    and c1: "intel_hpd_irq_storm_detect m2j t1 dev_priv pin long1 = (storm1, d1)"
    and c2: "intel_hpd_irq_storm_detect m2j t2 d1 pin long2 = (storm2, d2)"
  shows "(unat (m2j HPD_STORM_DETECT_PERIOD) < unat (t1 - last_jiffies (stats dev_priv pin)) \<longrightarrow>
            last_jiffies (stats d1 pin) = t1 \<and> count (stats d1 pin) = (if long1 then 10 else 1))
         \<and> (unat (m2j HPD_STORM_DETECT_PERIOD) < unat (t2 - t1)
              \<and> unat (t2 - t1) + unat (m2j HPD_STORM_DETECT_PERIOD) < 2 ^ 64 \<longrightarrow>
              last_jiffies (stats d2 pin) = t2 \<and> count (stats d2 pin) = (if long2 then 10 else 1))"
proof (intro conjI impI)
  have d1: "d1 = snd (intel_hpd_irq_storm_detect m2j t1 dev_priv pin long1)"
    and d2: "d2 = snd (intel_hpd_irq_storm_detect m2j t2 d1 pin long2)"
    using c1 c2 by simp_all
  {
    assume "unat (m2j HPD_STORM_DETECT_PERIOD) < unat (t1 - last_jiffies (stats dev_priv pin))"
    then show "last_jiffies (stats d1 pin) = t1" "count (stats d1 pin) = (if long1 then 10 else 1)"
      unfolding d1 using storm_detect_outside [where ?m2j = m2j, OF thr g1 per] by blast+
  }
  {
    assume gap: "unat (m2j HPD_STORM_DETECT_PERIOD) < unat (t2 - t1)
      \<and> unat (t2 - t1) + unat (m2j HPD_STORM_DETECT_PERIOD) < 2 ^ 64"
    define e where "e = t1 - last_jiffies (stats d1 pin)"
    have e: "unat e \<le> unat (m2j HPD_STORM_DETECT_PERIOD)"
      unfolding e_def d1 by (rule storm_detect_window_start [where ?m2j = m2j, OF thr g1 per])
    have "unat (t2 - t1) + unat e < 2 ^ LENGTH(64)"
      using gap e by simp
    then have "unat ((t2 - t1) + e) = unat (t2 - t1) + unat e"
      by (simp only: unat_add_lem)
    moreover have "(t2 - t1) + e = t2 - last_jiffies (stats d1 pin)"
      by (simp add: e_def)
    ultimately have out: "unat (m2j HPD_STORM_DETECT_PERIOD) < unat (t2 - last_jiffies (stats d1 pin))"
      using gap by simp
    have thr1: "hpd_storm_threshold d1 \<noteq> 0" and g21: "long2 \<or> hpd_short_storm_enabled d1"
      using thr g2 by (simp_all add: d1 storm_detect_config)
    show "last_jiffies (stats d2 pin) = t2" "count (stats d2 pin) = (if long2 then 10 else 1)"
      unfolding d2 using storm_detect_outside [where ?m2j = m2j, OF thr1 g21 per out] by blast+
  }
qed

theorem storm_detect_window_reset_witness:
  "last_jiffies (stats (snd (intel_hpd_irq_storm_detect of_nat 2000
      (stats_upd HPD_PORT_A (\<lambda>s. s\<lparr>count := 10\<rparr>) (example_dev_priv\<lparr>hpd_storm_threshold := 50\<rparr>))
      HPD_PORT_A True)) HPD_PORT_A) = 2000
   \<and> count (stats (snd (intel_hpd_irq_storm_detect of_nat 2000
      (stats_upd HPD_PORT_A (\<lambda>s. s\<lparr>count := 10\<rparr>) (example_dev_priv\<lparr>hpd_storm_threshold := 50\<rparr>))
      HPD_PORT_A True)) HPD_PORT_A) = 10
   \<and> last_jiffies (stats (snd (intel_hpd_irq_storm_detect of_nat 3500
      (snd (intel_hpd_irq_storm_detect of_nat 2000
        (stats_upd HPD_PORT_A (\<lambda>s. s\<lparr>count := 10\<rparr>) (example_dev_priv\<lparr>hpd_storm_threshold := 50\<rparr>))
        HPD_PORT_A True))
      HPD_PORT_A True)) HPD_PORT_A) = 3500
   \<and> count (stats (snd (intel_hpd_irq_storm_detect of_nat 3500
      (snd (intel_hpd_irq_storm_detect of_nat 2000
        (stats_upd HPD_PORT_A (\<lambda>s. s\<lparr>count := 10\<rparr>) (example_dev_priv\<lparr>hpd_storm_threshold := 50\<rparr>))
        HPD_PORT_A True))
      HPD_PORT_A True)) HPD_PORT_A) = 10"
proof -
  let ?d = "stats_upd HPD_PORT_A (\<lambda>s. s\<lparr>count := 10\<rparr>) (example_dev_priv\<lparr>hpd_storm_threshold := 50\<rparr>)"
  let ?r1 = "intel_hpd_irq_storm_detect of_nat 2000 ?d HPD_PORT_A True"
  let ?r2 = "intel_hpd_irq_storm_detect of_nat 3500 (snd ?r1) HPD_PORT_A True"
  have thr: "hpd_storm_threshold ?d \<noteq> 0"
    by (simp add: stats_upd_def example_dev_priv_def)
  have per: "unat (of_nat HPD_STORM_DETECT_PERIOD :: 64 word) < 2 ^ 63"
    by (simp add: HPD_STORM_DETECT_PERIOD_def)
  have lj: "last_jiffies (stats ?d HPD_PORT_A) = 0"
    by (simp add: stats_upd_def example_dev_priv_def example_stats_def)
  show ?thesis
    using storm_detect_window_reset [of ?d True True of_nat 2000 HPD_PORT_A "fst ?r1" "snd ?r1"
        3500 "fst ?r2" "snd ?r2", OF thr _ _ per]
    by (simp add: lj HPD_STORM_DETECT_PERIOD_def)
qed

text \<open>
  C3. With a threshold of 0 the storm detector returns false for every pulse, long or short,
  and changes nothing, for one pulse as for any series of pulses. With short pulses not
  counted, a short pulse, and any series of short pulses, returns false and changes nothing,
  while a long pulse still reports a storm exactly when the count it leaves exceeds the
  threshold (which is then not 0).
\<close>

theorem storm_detect_disabled:
  "(hpd_storm_threshold dev_priv = 0 \<longrightarrow>
      intel_hpd_irq_storm_detect m2j jiffies dev_priv pin long_hpd = (False, dev_priv)
      \<and> storm_detect_pulses m2j pin ps dev_priv = (replicate (length ps) False, dev_priv))
   \<and> (\<not> hpd_short_storm_enabled dev_priv \<longrightarrow>
        intel_hpd_irq_storm_detect m2j jiffies dev_priv pin False = (False, dev_priv)
        \<and> ((\<forall>p \<in> set ps. \<not> snd p) \<longrightarrow>
             storm_detect_pulses m2j pin ps dev_priv = (replicate (length ps) False, dev_priv)))
   \<and> (\<not> hpd_short_storm_enabled dev_priv \<and> hpd_storm_threshold dev_priv \<noteq> 0 \<longrightarrow>
        fst (intel_hpd_irq_storm_detect m2j jiffies dev_priv pin True) =
          (sint (hpd_storm_threshold dev_priv) <
           sint ((if time_in_range jiffies (last_jiffies (stats dev_priv pin))
                       (last_jiffies (stats dev_priv pin) + m2j HPD_STORM_DETECT_PERIOD)
                  then count (stats dev_priv pin) else 0) + 10)))"
  by (simp add: storm_detect_pulses_gated) (simp add: storm_detect_eq Let_def word_sless_alt)

theorem storm_detect_disabled_witness:
  "intel_hpd_irq_storm_detect of_nat 7 (example_dev_priv\<lparr>hpd_storm_threshold := 0\<rparr>) HPD_PORT_A True
     = (False, example_dev_priv\<lparr>hpd_storm_threshold := 0\<rparr>)
   \<and> storm_detect_pulses of_nat HPD_PORT_A [(7, True), (8, False), (9, True)]
        (example_dev_priv\<lparr>hpd_storm_threshold := 0\<rparr>)
     = ([False, False, False], example_dev_priv\<lparr>hpd_storm_threshold := 0\<rparr>)
   \<and> intel_hpd_irq_storm_detect of_nat 7 example_dev_priv HPD_PORT_A False = (False, example_dev_priv)
   \<and> storm_detect_pulses of_nat HPD_PORT_A [(7, False), (8, False), (9, False)] example_dev_priv
     = ([False, False, False], example_dev_priv)
   \<and> fst (intel_hpd_irq_storm_detect of_nat 7 example_dev_priv HPD_PORT_A True)"
proof -
  have n: "replicate (length [(7 :: 64 word, True), (8, False), (9, True)]) False = [False, False, False]"
    "replicate (length [(7 :: 64 word, False), (8, False), (9, False)]) False = [False, False, False]"
    by simp_all
  have t: "hpd_storm_threshold (example_dev_priv\<lparr>hpd_storm_threshold := 0\<rparr>) = 0"
    "hpd_storm_threshold example_dev_priv = 5" "\<not> hpd_short_storm_enabled example_dev_priv"
    "last_jiffies (stats example_dev_priv HPD_PORT_A) = 0" "count (stats example_dev_priv HPD_PORT_A) = 0"
    by (simp_all add: example_dev_priv_def example_stats_def)
  show ?thesis
    using storm_detect_disabled [of "example_dev_priv\<lparr>hpd_storm_threshold := 0\<rparr>" of_nat 7 HPD_PORT_A True
        "[(7, True), (8, False), (9, True)]"]
      storm_detect_disabled [of example_dev_priv of_nat 7 HPD_PORT_A True
        "[(7, False), (8, False), (9, False)]"]
    unfolding n
    by (simp add: t del: storm_detect_pulses.simps)
qed

section \<open>Administrative disable\<close>

text \<open>
  C6, as the claim states it, fails for a pin in state \<open>HPD_MARK_DISABLED\<close> (a storm was
  detected, polling is not yet engaged): \<^verbatim>\<open>intel_hpd_disable\<close> leaves it in that state,
  not in \<open>HPD_DISABLED\<close>.
\<close>

theorem hpd_disable_counterexample:
  "state (stats (stats_upd HPD_PORT_A (\<lambda>s. s\<lparr>state := HPD_MARK_DISABLED\<rparr>) example_dev_priv)
      HPD_PORT_A) = HPD_MARK_DISABLED
   \<and> state (stats (snd (intel_hpd_disable
        (stats_upd HPD_PORT_A (\<lambda>s. s\<lparr>state := HPD_MARK_DISABLED\<rparr>) example_dev_priv)
        HPD_PORT_A)) HPD_PORT_A) = HPD_MARK_DISABLED
   \<and> HPD_MARK_DISABLED \<noteq> HPD_DISABLED"
  by (simp add: intel_hpd_disable_def stats_upd_def example_dev_priv_def hpd_pin_defs)

text \<open>
  C6, amended. For every pin (a pin other than \<open>HPD_NONE\<close>), a disable request on a pin
  in state \<open>HPD_ENABLED\<close> puts the pin in state \<open>HPD_DISABLED\<close> and returns true, and a
  second request right after it returns false and changes nothing; on a pin that is not
  enabled (disabled, or marked disabled by the storm detector) the request changes nothing,
  the pin keeps its state, and false is returned. The request returns true exactly when the
  pin was enabled, which is exactly when it changed the state.
\<close>

theorem hpd_disable_transitions:
  assumes "pin \<noteq> HPD_NONE"
  shows "(state (stats dev_priv pin) = HPD_ENABLED \<longrightarrow>
            intel_hpd_disable dev_priv pin =
              (True, stats_upd pin (\<lambda>s. s\<lparr>state := HPD_DISABLED\<rparr>) dev_priv)
            \<and> state (stats (snd (intel_hpd_disable dev_priv pin)) pin) = HPD_DISABLED
            \<and> intel_hpd_disable (snd (intel_hpd_disable dev_priv pin)) pin =
                (False, snd (intel_hpd_disable dev_priv pin)))
         \<and> (state (stats dev_priv pin) \<noteq> HPD_ENABLED \<longrightarrow>
              intel_hpd_disable dev_priv pin = (False, dev_priv))
         \<and> fst (intel_hpd_disable dev_priv pin) = (state (stats dev_priv pin) = HPD_ENABLED)
         \<and> fst (intel_hpd_disable dev_priv pin) =
             (snd (intel_hpd_disable dev_priv pin) \<noteq> dev_priv)"
  using assms
  apply (simp add: intel_hpd_disable_def stats_upd_def)
  apply (auto dest: arg_cong [where f = "\<lambda>d. state (stats d pin)"])
  done

theorem hpd_disable_transitions_witness:
  "intel_hpd_disable example_dev_priv HPD_PORT_A =
     (True, stats_upd HPD_PORT_A (\<lambda>s. s\<lparr>state := HPD_DISABLED\<rparr>) example_dev_priv)
   \<and> intel_hpd_disable (snd (intel_hpd_disable example_dev_priv HPD_PORT_A)) HPD_PORT_A =
       (False, snd (intel_hpd_disable example_dev_priv HPD_PORT_A))
   \<and> intel_hpd_disable
        (stats_upd HPD_PORT_A (\<lambda>s. s\<lparr>state := HPD_MARK_DISABLED\<rparr>) example_dev_priv) HPD_PORT_A =
       (False, stats_upd HPD_PORT_A (\<lambda>s. s\<lparr>state := HPD_MARK_DISABLED\<rparr>) example_dev_priv)"
proof -
  have p: "HPD_PORT_A \<noteq> HPD_NONE" by (simp add: hpd_pin_defs)
  have e: "state (stats example_dev_priv HPD_PORT_A) = HPD_ENABLED"
    by (simp add: example_dev_priv_def example_stats_def)
  have m: "state (stats (stats_upd HPD_PORT_A (\<lambda>s. s\<lparr>state := HPD_MARK_DISABLED\<rparr>) example_dev_priv)
      HPD_PORT_A) \<noteq> HPD_ENABLED"
    by (simp add: stats_upd_def)
  show ?thesis
    using hpd_disable_transitions [OF p, of example_dev_priv]
      hpd_disable_transitions [OF p,
        of "stats_upd HPD_PORT_A (\<lambda>s. s\<lparr>state := HPD_MARK_DISABLED\<rparr>) example_dev_priv"]
      e m
    by blast
qed

section \<open>Pins and ports\<close>

text \<open>
  C9, as the claim states it, fails where the platform pairs pin E with port F: there port
  E still has a pin, pin E, and the port of pin E is port F, not port E.
\<close>

theorem pin_port_roundtrip_counterexample:
  "intel_hpd_pin_default (example_dev_priv\<lparr>cnl_with_port_f := True\<rparr>) PORT_E = HPD_PORT_E
   \<and> HPD_PORT_E \<noteq> HPD_NONE
   \<and> intel_hpd_pin_to_port (example_dev_priv\<lparr>cnl_with_port_f := True\<rparr>)
        (intel_hpd_pin_default (example_dev_priv\<lparr>cnl_with_port_f := True\<rparr>) PORT_E) = PORT_F
   \<and> PORT_F \<noteq> PORT_E"
  by (simp add: intel_hpd_pin_default_def intel_hpd_pin_to_port_def example_dev_priv_def
      hpd_pin_defs port_defs)

text \<open>
  C9, amended. For every port that has a pin, except port E on the platform that pairs pin
  E with port F, the port of the port's pin is the port itself, under either value of the
  platform flag. On that platform the pin of port F is pin E and the port of pin E is port
  F; on every other platform the pin of port F is pin F and the port of pin E is port E. All
  other ports and pins are paired by their letters, A to F, whatever the flag, and every
  other value of the enumerations is mapped to \<open>HPD_NONE\<close>, respectively \<open>PORT_NONE\<close>.
\<close>

theorem pin_port_mapping:
  "(\<not> (cnl_with_port_f dev_priv \<and> port = PORT_E) \<longrightarrow>
      intel_hpd_pin_default dev_priv port \<noteq> HPD_NONE \<longrightarrow>
      intel_hpd_pin_to_port dev_priv (intel_hpd_pin_default dev_priv port) = port)
   \<and> (cnl_with_port_f dev_priv \<longrightarrow>
        intel_hpd_pin_default dev_priv PORT_F = HPD_PORT_E
        \<and> intel_hpd_pin_to_port dev_priv HPD_PORT_E = PORT_F)
   \<and> (\<not> cnl_with_port_f dev_priv \<longrightarrow>
        intel_hpd_pin_default dev_priv PORT_F = HPD_PORT_F
        \<and> intel_hpd_pin_to_port dev_priv HPD_PORT_E = PORT_E)
   \<and> (port \<noteq> PORT_F \<longrightarrow>
        intel_hpd_pin_default dev_priv port =
          (if port = PORT_A then HPD_PORT_A else if port = PORT_B then HPD_PORT_B
           else if port = PORT_C then HPD_PORT_C else if port = PORT_D then HPD_PORT_D
           else if port = PORT_E then HPD_PORT_E else HPD_NONE))
   \<and> (pin \<noteq> HPD_PORT_E \<longrightarrow>
        intel_hpd_pin_to_port dev_priv pin =
          (if pin = HPD_PORT_A then PORT_A else if pin = HPD_PORT_B then PORT_B
           else if pin = HPD_PORT_C then PORT_C else if pin = HPD_PORT_D then PORT_D
           else if pin = HPD_PORT_F then PORT_F else PORT_NONE))
   \<and> (port \<notin> {PORT_A, PORT_B, PORT_C, PORT_D, PORT_E, PORT_F} \<longrightarrow>
        intel_hpd_pin_default dev_priv port = HPD_NONE)
   \<and> (pin \<notin> {HPD_PORT_A, HPD_PORT_B, HPD_PORT_C, HPD_PORT_D, HPD_PORT_E, HPD_PORT_F} \<longrightarrow>
        intel_hpd_pin_to_port dev_priv pin = PORT_NONE)"
  by (simp add: intel_hpd_pin_default_def intel_hpd_pin_to_port_def hpd_pin_defs port_defs)

theorem pin_port_mapping_witness:
  "intel_hpd_pin_to_port (example_dev_priv\<lparr>cnl_with_port_f := True\<rparr>)
     (intel_hpd_pin_default (example_dev_priv\<lparr>cnl_with_port_f := True\<rparr>) PORT_F) = PORT_F
   \<and> intel_hpd_pin_default (example_dev_priv\<lparr>cnl_with_port_f := True\<rparr>) PORT_F = HPD_PORT_E
   \<and> intel_hpd_pin_to_port (example_dev_priv\<lparr>cnl_with_port_f := True\<rparr>) HPD_PORT_E = PORT_F
   \<and> intel_hpd_pin_default example_dev_priv PORT_F = HPD_PORT_F
   \<and> intel_hpd_pin_to_port example_dev_priv HPD_PORT_E = PORT_E
   \<and> intel_hpd_pin_to_port example_dev_priv (intel_hpd_pin_default example_dev_priv PORT_E) = PORT_E
   \<and> intel_hpd_pin_default example_dev_priv I915_MAX_PORTS = HPD_NONE
   \<and> intel_hpd_pin_to_port example_dev_priv HPD_CRT = PORT_NONE"
  using pin_port_mapping [of "example_dev_priv\<lparr>cnl_with_port_f := True\<rparr>" PORT_F HPD_CRT]
    pin_port_mapping [of example_dev_priv I915_MAX_PORTS HPD_CRT]
    pin_port_mapping [of example_dev_priv PORT_E HPD_CRT]
  by (simp add: intel_hpd_pin_default_def intel_hpd_pin_to_port_def example_dev_priv_def
      hpd_pin_defs port_defs)

section \<open>The interrupt handler\<close>

text \<open>
  C10. A call of \<^verbatim>\<open>intel_hpd_irq_handler\<close> with an empty mask of fired pins returns at
  once, whatever the mask of long pulses: the driver state is the one it was called with,
  so no statistics, state or mask has changed and no outgoing call (the interrupt setup hook,
  either work item) has been logged.
\<close>

theorem irq_handler_no_pins:
  "intel_hpd_irq_handler m2j jiffies_at dev_priv 0 long_mask = Some dev_priv"
  by (simp add: intel_hpd_irq_handler_def)

lemma same_config_refl: "same_config d d"
  by (simp add: same_config_def)

lemma same_config_trans: "same_config a b \<Longrightarrow> same_config b c \<Longrightarrow> same_config a c"
  by (simp add: same_config_def)

lemma same_config_dig:
  "same_config d d' \<Longrightarrow> is_dig_port d' i = is_dig_port d i"
  "same_config d d' \<Longrightarrow> long_hpd_of d' lm i = long_hpd_of d lm i"
  "same_config d d' \<Longrightarrow> intel_hpd_pin_to_port d' i = intel_hpd_pin_to_port d i"
  by (simp_all add: same_config_def is_dig_port_def long_hpd_of_def intel_hpd_pin_to_port_def)

lemma storm_detect_fields:
  "irq_port (snd (intel_hpd_irq_storm_detect m2j t d pin long_hpd)) = irq_port d"
  "cnl_with_port_f (snd (intel_hpd_irq_storm_detect m2j t d pin long_hpd)) = cnl_with_port_f d"
  "hpd_storm_threshold (snd (intel_hpd_irq_storm_detect m2j t d pin long_hpd)) = hpd_storm_threshold d"
  "hpd_short_storm_enabled (snd (intel_hpd_irq_storm_detect m2j t d pin long_hpd)) =
     hpd_short_storm_enabled d"
  "display_irqs_enabled (snd (intel_hpd_irq_storm_detect m2j t d pin long_hpd)) = display_irqs_enabled d"
  "hpd_irq_setup (snd (intel_hpd_irq_storm_detect m2j t d pin long_hpd)) = hpd_irq_setup d"
  "connectors (snd (intel_hpd_irq_storm_detect m2j t d pin long_hpd)) = connectors d"
  "calls (snd (intel_hpd_irq_storm_detect m2j t d pin long_hpd)) = calls d"
  "reenable_work (snd (intel_hpd_irq_storm_detect m2j t d pin long_hpd)) = reenable_work d"
  by (simp_all add: storm_detect_eq Let_def)

lemma storm_detect_other:
  "i \<noteq> pin \<Longrightarrow> stats (snd (intel_hpd_irq_storm_detect m2j t d pin long_hpd)) i = stats d i"
  by (simp add: storm_detect_eq Let_def)

lemma storm_detect_masks:
  "event_bits (snd (intel_hpd_irq_storm_detect m2j t d pin long_hpd)) = event_bits d"
  "long_port_mask (snd (intel_hpd_irq_storm_detect m2j t d pin long_hpd)) = long_port_mask d"
  "short_port_mask (snd (intel_hpd_irq_storm_detect m2j t d pin long_hpd)) = short_port_mask d"
  by (simp_all add: storm_detect_eq Let_def)

lemma storm_detect_cong:
  assumes "stats d' pin = stats d pin" "hpd_storm_threshold d' = hpd_storm_threshold d"
    "hpd_short_storm_enabled d' = hpd_short_storm_enabled d"
  shows "fst (intel_hpd_irq_storm_detect m2j t d' pin long_hpd) =
         fst (intel_hpd_irq_storm_detect m2j t d pin long_hpd)"
    and "stats (snd (intel_hpd_irq_storm_detect m2j t d' pin long_hpd)) pin =
         stats (snd (intel_hpd_irq_storm_detect m2j t d pin long_hpd)) pin"
  using assms by (simp_all add: storm_detect_eq Let_def)

text \<open>The body of the loop, with the storm detector as a whole.\<close>

lemma irq_handler_pin_eq:
  "irq_handler_pin m2j jif pm lm i l =
     (if BIT i AND pm = 0 then l
      else
        (let dig = is_dig_port (dev l) i;
             lh = long_hpd_of (dev l) lm i;
             p = nat (intel_hpd_pin_to_port (dev l) i);
             d1 = (if dig then
                     (if lh then (dev l)\<lparr>long_port_mask := long_port_mask (dev l) OR push_bit p 1\<rparr>
                      else (dev l)\<lparr>short_port_mask := short_port_mask (dev l) OR push_bit p 1\<rparr>)
                   else dev l)
         in if state (stats (dev l) i) \<noteq> HPD_ENABLED
            then l\<lparr>dev := d1, queue_dig := (queue_dig l \<or> dig)\<rparr>
            else
              (let d2 = (if dig then d1 else d1\<lparr>event_bits := event_bits d1 OR BIT i\<rparr>);
                   r = intel_hpd_irq_storm_detect m2j (jif i) d2 i lh
               in l\<lparr>dev := (if fst r then (snd r)\<lparr>event_bits := event_bits (snd r) AND NOT (BIT i)\<rparr>
                              else snd r),
                     storm_detected := (storm_detected l \<or> fst r),
                     queue_dig := (queue_dig l \<or> dig),
                     queue_hp := (queue_hp l \<or> \<not> dig \<or> fst r)\<rparr>)))"
  by (cases "state (stats (dev l) i)")
    (auto simp add: irq_handler_pin_def is_dig_port_def long_hpd_of_def Let_def split: prod.splits)


lemma pin_to_port_range:
  "intel_hpd_pin_to_port d i \<noteq> PORT_NONE \<Longrightarrow>
     0 \<le> intel_hpd_pin_to_port d i \<and> intel_hpd_pin_to_port d i < I915_MAX_PORTS"
  by (simp add: intel_hpd_pin_to_port_def port_defs split: if_splits)

lemma dig_port_nr: "is_dig_port d i \<Longrightarrow> nat (intel_hpd_pin_to_port d i) < 32"
  using pin_to_port_range [of d i] by (auto simp add: is_dig_port_def port_defs nat_less_iff)

lemma bit_BIT: "bit (BIT j) i \<longleftrightarrow> i = j \<and> j < 32"
  by (auto simp add: BIT_def bit_simps)

lemma irq_pin_config: "same_config (dev l) (dev (irq_handler_pin m2j jif pm lm j l))"
  by (simp add: irq_handler_pin_eq Let_def same_config_def storm_detect_fields)

lemma irq_pin_other_stats:
  "j \<noteq> i \<Longrightarrow> stats (dev (irq_handler_pin m2j jif pm lm j l)) i = stats (dev l) i"
  by (simp add: irq_handler_pin_eq Let_def storm_detect_other)

lemma irq_pin_other_bit:
  "j \<noteq> i \<Longrightarrow> bit (event_bits (dev (irq_handler_pin m2j jif pm lm j l))) i
     = bit (event_bits (dev l)) i"
  by (auto simp add: irq_handler_pin_eq Let_def storm_detect_masks bit_simps bit_BIT
      dest: bit_imp_le_length)

lemma irq_pin_flags:
  "queue_hp l \<Longrightarrow> queue_hp (irq_handler_pin m2j jif pm lm j l)"
  "queue_dig l \<Longrightarrow> queue_dig (irq_handler_pin m2j jif pm lm j l)"
  "storm_detected l \<Longrightarrow> storm_detected (irq_handler_pin m2j jif pm lm j l)"
  by (simp_all add: irq_handler_pin_eq Let_def)

lemma irq_pin_port_masks:
  "bit (long_port_mask (dev l)) n \<Longrightarrow> bit (long_port_mask (dev (irq_handler_pin m2j jif pm lm j l))) n"
  "bit (short_port_mask (dev l)) n \<Longrightarrow> bit (short_port_mask (dev (irq_handler_pin m2j jif pm lm j l))) n"
  by (auto simp add: irq_handler_pin_eq Let_def storm_detect_masks bit_simps)

lemma irq_loop_config:
  "same_config (dev l) (dev (fold (irq_handler_pin m2j jif pm lm) ps l))"
proof (induction ps arbitrary: l)
  case Nil
  show ?case by (simp add: same_config_refl)
next
  case (Cons j ps)
  show ?case
    using same_config_trans [OF irq_pin_config Cons.IH] by simp
qed

lemma irq_loop_other_stats:
  "i \<notin> set ps \<Longrightarrow> stats (dev (fold (irq_handler_pin m2j jif pm lm) ps l)) i = stats (dev l) i"
  by (induction ps arbitrary: l) (simp_all add: irq_pin_other_stats)

lemma irq_loop_other_bit:
  "i \<notin> set ps \<Longrightarrow> bit (event_bits (dev (fold (irq_handler_pin m2j jif pm lm) ps l))) i
     = bit (event_bits (dev l)) i"
  by (induction ps arbitrary: l) (simp_all add: irq_pin_other_bit)

lemma irq_loop_flags:
  "queue_hp l \<Longrightarrow> queue_hp (fold (irq_handler_pin m2j jif pm lm) ps l)"
  "queue_dig l \<Longrightarrow> queue_dig (fold (irq_handler_pin m2j jif pm lm) ps l)"
  "storm_detected l \<Longrightarrow> storm_detected (fold (irq_handler_pin m2j jif pm lm) ps l)"
  by (induction ps arbitrary: l) (simp_all add: irq_pin_flags)

lemma irq_loop_port_masks:
  "bit (long_port_mask (dev l)) n \<Longrightarrow>
     bit (long_port_mask (dev (fold (irq_handler_pin m2j jif pm lm) ps l))) n"
  "bit (short_port_mask (dev l)) n \<Longrightarrow>
     bit (short_port_mask (dev (fold (irq_handler_pin m2j jif pm lm) ps l))) n"
  by (induction ps arbitrary: l) (simp_all add: irq_pin_port_masks)


lemma storm_detect_fst_upd:
  "fst (intel_hpd_irq_storm_detect m2j t (d\<lparr>long_port_mask := x\<rparr>) pin lh)
     = fst (intel_hpd_irq_storm_detect m2j t d pin lh)"
  "fst (intel_hpd_irq_storm_detect m2j t (d\<lparr>short_port_mask := x\<rparr>) pin lh)
     = fst (intel_hpd_irq_storm_detect m2j t d pin lh)"
  "fst (intel_hpd_irq_storm_detect m2j t (d\<lparr>event_bits := y\<rparr>) pin lh)
     = fst (intel_hpd_irq_storm_detect m2j t d pin lh)"
  by (simp_all add: storm_detect_eq Let_def)

lemma irq_pin_storm:
  assumes "BIT i AND pm \<noteq> 0" "state (stats (dev l) i) = HPD_ENABLED"
    and "fst (intel_hpd_irq_storm_detect m2j (jif i) (dev l) i (long_hpd_of (dev l) lm i))"
  shows "\<not> bit (event_bits (dev (irq_handler_pin m2j jif pm lm i l))) i"
    and "queue_hp (irq_handler_pin m2j jif pm lm i l)"
    and "storm_detected (irq_handler_pin m2j jif pm lm i l)"
  using assms
  by (cases "long_hpd_of (dev l) lm i";
      simp add: irq_handler_pin_eq Let_def storm_detect_fst_upd bit_simps bit_BIT)+

lemma irq_pin_skip:
  assumes "BIT i AND pm \<noteq> 0" "state (stats (dev l) i) \<noteq> HPD_ENABLED"
  shows "stats (dev (irq_handler_pin m2j jif pm lm i l)) i = stats (dev l) i"
    and "event_bits (dev (irq_handler_pin m2j jif pm lm i l)) = event_bits (dev l)"
    and "is_dig_port (dev l) i \<Longrightarrow> queue_dig (irq_handler_pin m2j jif pm lm i l)"
    and "is_dig_port (dev l) i \<Longrightarrow> long_hpd_of (dev l) lm i \<Longrightarrow>
           bit (long_port_mask (dev (irq_handler_pin m2j jif pm lm i l)))
             (nat (intel_hpd_pin_to_port (dev l) i))"
    and "is_dig_port (dev l) i \<Longrightarrow> \<not> long_hpd_of (dev l) lm i \<Longrightarrow>
           bit (short_port_mask (dev (irq_handler_pin m2j jif pm lm i l)))
             (nat (intel_hpd_pin_to_port (dev l) i))"
  using assms dig_port_nr [of "dev l" i]
  by (simp_all add: irq_handler_pin_eq Let_def bit_simps)

lemma irq_loop_split:
  assumes "i \<in> set ps" "distinct ps"
  obtains ys zs where "ps = ys @ i # zs" "i \<notin> set ys" "i \<notin> set zs"
proof -
  from assms(1) obtain ys zs where ps: "ps = ys @ i # zs"
    by (auto dest: split_list)
  with assms(2) have "i \<notin> set ys" "i \<notin> set zs" by auto
  with ps show thesis by (rule that)
qed

lemma irq_loop_storm:
  assumes i: "i \<in> set ps" "distinct ps"
    and fired: "BIT i AND pm \<noteq> 0"
    and en: "state (stats (dev l) i) = HPD_ENABLED"
    and storm: "fst (intel_hpd_irq_storm_detect m2j (jif i) (dev l) i (long_hpd_of (dev l) lm i))"
  shows "\<not> bit (event_bits (dev (fold (irq_handler_pin m2j jif pm lm) ps l))) i"
    and "queue_hp (fold (irq_handler_pin m2j jif pm lm) ps l)"
    and "storm_detected (fold (irq_handler_pin m2j jif pm lm) ps l)"
proof -
  from i obtain ys zs where ps: "ps = ys @ i # zs" and ys: "i \<notin> set ys" and zs: "i \<notin> set zs"
    by (rule irq_loop_split)
  define l1 where "l1 = fold (irq_handler_pin m2j jif pm lm) ys l"
  define l2 where "l2 = irq_handler_pin m2j jif pm lm i l1"
  have fin: "fold (irq_handler_pin m2j jif pm lm) ps l = fold (irq_handler_pin m2j jif pm lm) zs l2"
    by (simp add: ps l1_def l2_def)
  have cfg: "same_config (dev l) (dev l1)"
    unfolding l1_def by (rule irq_loop_config)
  have st: "stats (dev l1) i = stats (dev l) i"
    unfolding l1_def using ys by (rule irq_loop_other_stats)
  have "fst (intel_hpd_irq_storm_detect m2j (jif i) (dev l1) i (long_hpd_of (dev l1) lm i))
      = fst (intel_hpd_irq_storm_detect m2j (jif i) (dev l) i (long_hpd_of (dev l) lm i))"
    unfolding same_config_dig(2) [OF cfg]
    using cfg by (intro storm_detect_cong st) (simp_all add: same_config_def)
  with storm have s1: "fst (intel_hpd_irq_storm_detect m2j (jif i) (dev l1) i (long_hpd_of (dev l1) lm i))"
    by simp
  have en1: "state (stats (dev l1) i) = HPD_ENABLED"
    using en st by simp
  note at = irq_pin_storm [where jif = jif and m2j = m2j and lm = lm, OF fired en1 s1, folded l2_def]
  show "\<not> bit (event_bits (dev (fold (irq_handler_pin m2j jif pm lm) ps l))) i"
    unfolding fin using at(1) zs by (simp add: irq_loop_other_bit)
  show "queue_hp (fold (irq_handler_pin m2j jif pm lm) ps l)"
    unfolding fin using at(2) by (rule irq_loop_flags)
  show "storm_detected (fold (irq_handler_pin m2j jif pm lm) ps l)"
    unfolding fin using at(3) by (rule irq_loop_flags)
qed

lemma irq_loop_skip:
  assumes i: "i \<in> set ps" "distinct ps"
    and fired: "BIT i AND pm \<noteq> 0"
    and en: "state (stats (dev l) i) \<noteq> HPD_ENABLED"
  shows "stats (dev (fold (irq_handler_pin m2j jif pm lm) ps l)) i = stats (dev l) i"
    and "bit (event_bits (dev (fold (irq_handler_pin m2j jif pm lm) ps l))) i
           = bit (event_bits (dev l)) i"
    and "is_dig_port (dev l) i \<Longrightarrow> queue_dig (fold (irq_handler_pin m2j jif pm lm) ps l)"
    and "is_dig_port (dev l) i \<Longrightarrow> long_hpd_of (dev l) lm i \<Longrightarrow>
           bit (long_port_mask (dev (fold (irq_handler_pin m2j jif pm lm) ps l)))
             (nat (intel_hpd_pin_to_port (dev l) i))"
    and "is_dig_port (dev l) i \<Longrightarrow> \<not> long_hpd_of (dev l) lm i \<Longrightarrow>
           bit (short_port_mask (dev (fold (irq_handler_pin m2j jif pm lm) ps l)))
             (nat (intel_hpd_pin_to_port (dev l) i))"
proof -
  from i obtain ys zs where ps: "ps = ys @ i # zs" and ys: "i \<notin> set ys" and zs: "i \<notin> set zs"
    by (rule irq_loop_split)
  define l1 where "l1 = fold (irq_handler_pin m2j jif pm lm) ys l"
  define l2 where "l2 = irq_handler_pin m2j jif pm lm i l1"
  have fin: "fold (irq_handler_pin m2j jif pm lm) ps l = fold (irq_handler_pin m2j jif pm lm) zs l2"
    by (simp add: ps l1_def l2_def)
  have cfg: "same_config (dev l) (dev l1)"
    unfolding l1_def by (rule irq_loop_config)
  have st: "stats (dev l1) i = stats (dev l) i"
    unfolding l1_def using ys by (rule irq_loop_other_stats)
  have eb: "bit (event_bits (dev l1)) i = bit (event_bits (dev l)) i"
    unfolding l1_def using ys by (rule irq_loop_other_bit)
  have en1: "state (stats (dev l1) i) \<noteq> HPD_ENABLED"
    using en st by simp
  note at = irq_pin_skip [where jif = jif and m2j = m2j and lm = lm, OF fired en1,
      folded l2_def, unfolded same_config_dig [OF cfg]]
  show "stats (dev (fold (irq_handler_pin m2j jif pm lm) ps l)) i = stats (dev l) i"
    unfolding fin using at(1) zs st by (simp add: irq_loop_other_stats)
  show "bit (event_bits (dev (fold (irq_handler_pin m2j jif pm lm) ps l))) i
      = bit (event_bits (dev l)) i"
    unfolding fin using at(2) zs eb by (simp add: irq_loop_other_bit)
  show "queue_dig (fold (irq_handler_pin m2j jif pm lm) ps l)" if "is_dig_port (dev l) i"
    unfolding fin using at(3) [OF that] by (rule irq_loop_flags)
  show "bit (long_port_mask (dev (fold (irq_handler_pin m2j jif pm lm) ps l)))
      (nat (intel_hpd_pin_to_port (dev l) i))"
    if "is_dig_port (dev l) i" "long_hpd_of (dev l) lm i"
    unfolding fin using at(4) [OF that] by (rule irq_loop_port_masks)
  show "bit (short_port_mask (dev (fold (irq_handler_pin m2j jif pm lm) ps l)))
      (nat (intel_hpd_pin_to_port (dev l) i))"
    if "is_dig_port (dev l) i" "\<not> long_hpd_of (dev l) lm i"
    unfolding fin using at(5) [OF that] by (rule irq_loop_port_masks)
qed


lemma for_each_hpd_pin_distinct: "distinct for_each_hpd_pin"
  by (simp add: for_each_hpd_pin_def)

lemma irq_handler_eq:
  assumes "pm \<noteq> 0"
  shows "intel_hpd_irq_handler m2j jif d pm lm =
    (let l = fold (irq_handler_pin m2j jif pm lm) for_each_hpd_pin
               \<lparr>dev = d, storm_detected = False, queue_dig = False, queue_hp = False\<rparr>
     in if storm_detected l \<and> display_irqs_enabled d \<and> \<not> hpd_irq_setup d then None
        else Some ((dev l)\<lparr>calls := calls d
               @ (if storm_detected l \<and> display_irqs_enabled d then [Hpd_irq_setup] else [])
               @ (if queue_dig l then [Queue_dig_port_work] else [])
               @ (if queue_hp l then [Schedule_hotplug_work] else [])\<rparr>))"
proof -
  define l where "l = fold (irq_handler_pin m2j jif pm lm) for_each_hpd_pin
      \<lparr>dev = d, storm_detected = False, queue_dig = False, queue_hp = False\<rparr>"
  have "same_config d (dev l)"
    using irq_loop_config [of "\<lparr>dev = d, storm_detected = False, queue_dig = False, queue_hp = False\<rparr>"
        m2j jif pm lm for_each_hpd_pin]
    by (simp add: l_def)
  then have c: "display_irqs_enabled (dev l) = display_irqs_enabled d"
    "hpd_irq_setup (dev l) = hpd_irq_setup d" "calls (dev l) = calls d"
    by (simp_all add: same_config_def)
  show ?thesis
    using assms
    by (simp add: intel_hpd_irq_handler_def l_def [symmetric] Let_def c call_hpd_irq_setup_def
        queue_dig_port_work_def schedule_hotplug_work_def)
qed

text \<open>
  C4. In \<^verbatim>\<open>intel_hpd_irq_handler\<close>, for every pin of the loop that has fired, is enabled and
  on which the storm detector reports a storm when the loop calls it, the handler leaves the
  pin's bit of \<open>event_bits\<close> clear, so that this event is not delivered, and all the same
  schedules the hotplug work: the outgoing calls of the dispatch end with it. The detector's
  answer for the pin does not depend on the other pins of the loop, so it is stated on the
  state the handler is called with. The handler returns provided the interrupt setup hook
  is set whenever display interrupts are enabled (it calls the hook unchecked).
\<close>

theorem irq_handler_storm:
  assumes pin: "i \<in> set for_each_hpd_pin"
    and fired: "BIT i AND pin_mask \<noteq> 0"
    and en: "state (stats dev_priv i) = HPD_ENABLED"
    and storm: "fst (intel_hpd_irq_storm_detect m2j (jiffies_at i) dev_priv i
                      (long_hpd_of dev_priv long_mask i))"
    and hook: "display_irqs_enabled dev_priv \<longrightarrow> hpd_irq_setup dev_priv"
  shows "\<exists>d' cs. intel_hpd_irq_handler m2j jiffies_at dev_priv pin_mask long_mask = Some d'
           \<and> \<not> bit (event_bits d') i
           \<and> calls d' = calls dev_priv @ cs @ [Schedule_hotplug_work]"
proof -
  let ?l0 = "\<lparr>dev = dev_priv, storm_detected = False, queue_dig = False, queue_hp = False\<rparr>"
  define l where "l = fold (irq_handler_pin m2j jiffies_at pin_mask long_mask) for_each_hpd_pin ?l0"
  have pm: "pin_mask \<noteq> 0" using fired by auto
  have a: "\<not> bit (event_bits (dev l)) i" "queue_hp l"
    using irq_loop_storm [where l = ?l0 and jif = jiffies_at and m2j = m2j and lm = long_mask,
        OF pin for_each_hpd_pin_distinct fired] en storm
    by (simp_all add: l_def)
  show ?thesis
    using a hook by (simp add: irq_handler_eq [OF pm] l_def [symmetric] Let_def)
qed

theorem irq_handler_storm_witness:
  "\<exists>d' cs. intel_hpd_irq_handler of_nat (\<lambda>_. 0) example_dev_priv (BIT HPD_PORT_A) 0 = Some d'
     \<and> \<not> bit (event_bits d') HPD_PORT_A
     \<and> calls d' = calls example_dev_priv @ cs @ [Schedule_hotplug_work]"
proof -
  have "HPD_PORT_A \<in> set for_each_hpd_pin"
    by (simp add: for_each_hpd_pin_def hpd_pin_defs)
  moreover have "BIT HPD_PORT_A AND BIT HPD_PORT_A \<noteq> 0"
    by (simp add: BIT_def hpd_pin_defs)
  moreover have "state (stats example_dev_priv HPD_PORT_A) = HPD_ENABLED"
    by (simp add: example_dev_priv_def example_stats_def)
  moreover have "fst (intel_hpd_irq_storm_detect of_nat 0 example_dev_priv HPD_PORT_A
      (long_hpd_of example_dev_priv 0 HPD_PORT_A))"
    by (simp add: storm_detect_eq long_hpd_of_def is_dig_port_def example_dev_priv_def
        example_stats_def Let_def word_sless_alt)
  moreover have "display_irqs_enabled example_dev_priv \<longrightarrow> hpd_irq_setup example_dev_priv"
    by (simp add: example_dev_priv_def)
  ultimately show ?thesis
    by (rule irq_handler_storm [where jiffies_at = "\<lambda>_. 0"])
qed

text \<open>
  C5. In \<^verbatim>\<open>intel_hpd_irq_handler\<close>, for every pin of the loop that has fired and whose
  state is not \<open>HPD_ENABLED\<close> (disabled, or marked disabled), the dispatch leaves the
  pin's statistics and state and the pin's bit of \<open>event_bits\<close> as they were: the bit is
  not set and the storm detector is not run for the pin. If the pin's port is a registered
  digital port, the port is still recorded in \<open>long_port_mask\<close> or \<open>short_port_mask\<close>,
  by the length of the pulse, and the digital port work is queued.
\<close>

theorem irq_handler_not_enabled:
  assumes pin: "i \<in> set for_each_hpd_pin"
    and fired: "BIT i AND pin_mask \<noteq> 0"
    and en: "state (stats dev_priv i) \<noteq> HPD_ENABLED"
    and hook: "display_irqs_enabled dev_priv \<longrightarrow> hpd_irq_setup dev_priv"
  shows "\<exists>d' cs. intel_hpd_irq_handler m2j jiffies_at dev_priv pin_mask long_mask = Some d'
           \<and> stats d' i = stats dev_priv i
           \<and> bit (event_bits d') i = bit (event_bits dev_priv) i
           \<and> calls d' = calls dev_priv @ cs
           \<and> (is_dig_port dev_priv i \<longrightarrow>
                Queue_dig_port_work \<in> set cs
                \<and> bit (if long_hpd_of dev_priv long_mask i then long_port_mask d'
                        else short_port_mask d')
                    (nat (intel_hpd_pin_to_port dev_priv i)))"
proof -
  let ?l0 = "\<lparr>dev = dev_priv, storm_detected = False, queue_dig = False, queue_hp = False\<rparr>"
  define l where "l = fold (irq_handler_pin m2j jiffies_at pin_mask long_mask) for_each_hpd_pin ?l0"
  have pm: "pin_mask \<noteq> 0" using fired by auto
  have en0: "state (stats (dev ?l0) i) \<noteq> HPD_ENABLED" using en by simp
  note a = irq_loop_skip [where l = ?l0 and jif = jiffies_at and m2j = m2j and lm = long_mask,
        OF pin for_each_hpd_pin_distinct fired en0, folded l_def, simplified]
  show ?thesis
    using a hook by (auto simp add: irq_handler_eq [OF pm] l_def [symmetric] Let_def)
qed

theorem irq_handler_not_enabled_witness:
  "\<exists>d' cs. intel_hpd_irq_handler of_nat (\<lambda>_. 0) example_dig_dev_priv (BIT HPD_PORT_B)
       (BIT HPD_PORT_B) = Some d'
     \<and> stats d' HPD_PORT_B = stats example_dig_dev_priv HPD_PORT_B
     \<and> bit (event_bits d') HPD_PORT_B = bit (event_bits example_dig_dev_priv) HPD_PORT_B
     \<and> calls d' = calls example_dig_dev_priv @ cs
     \<and> Queue_dig_port_work \<in> set cs
     \<and> bit (long_port_mask d') (nat PORT_B)"
proof -
  have pin: "HPD_PORT_B \<in> set for_each_hpd_pin"
    by (simp add: for_each_hpd_pin_def hpd_pin_defs)
  have fired: "BIT HPD_PORT_B AND BIT HPD_PORT_B \<noteq> 0"
    by (simp add: BIT_def hpd_pin_defs)
  have st: "state (stats example_dig_dev_priv HPD_PORT_B) \<noteq> HPD_ENABLED"
    by (simp add: example_dig_dev_priv_def stats_upd_def)
  have hook: "display_irqs_enabled example_dig_dev_priv \<longrightarrow> hpd_irq_setup example_dig_dev_priv"
    by (simp add: example_dig_dev_priv_def stats_upd_def example_dev_priv_def)
  have port: "intel_hpd_pin_to_port example_dig_dev_priv HPD_PORT_B = PORT_B"
    by (simp add: intel_hpd_pin_to_port_def hpd_pin_defs)
  have dig: "is_dig_port example_dig_dev_priv HPD_PORT_B"
    unfolding is_dig_port_def port
    by (simp add: example_dig_dev_priv_def stats_upd_def port_defs)
  have long: "long_hpd_of example_dig_dev_priv (BIT HPD_PORT_B) HPD_PORT_B"
    using fired by (simp add: long_hpd_of_def dig)
  show ?thesis
    using irq_handler_not_enabled [where m2j = of_nat and jiffies_at = "\<lambda>_. 0"
        and long_mask = "BIT HPD_PORT_B", OF pin fired st hook]
    by (simp add: dig long port)
qed

section \<open>Switching to polling after a storm\<close>














section \<open>Re-enabling the pins\<close>

lemma reenable_connectors_eq:
  "encoders_set cs \<Longrightarrow>
     reenable_connectors i cs =
       Some (map (\<lambda>c. if \<not> mst_port c \<and> conn_pin c = i then restore_polled c else c) cs)"
  by (induction cs)
    (auto simp add: encoders_set_def conn_pin_def restore_polled_def Let_def)

lemma encoders_set_map:
  assumes "encoders_set cs"
  shows "encoders_set (map (\<lambda>c. if P c then restore_polled c else c) cs)"
  using assms by (induction cs) (simp_all add: encoders_set_def restore_polled_def)

lemma reenable_loop_eq:
  assumes "distinct pins" "encoders_set (connectors d)"
  shows "reenable_loop pins d = Some (reenabled pins d)"
  using assms
proof (induction pins arbitrary: d)
  case Nil
  show ?case by (simp add: reenabled_def)
next
  case (Cons i pins)
  show ?case
  proof (cases "state (stats d i) = HPD_DISABLED")
    case False
    have "reenabled (i # pins) d = reenabled pins d"
      using False by (auto simp add: reenabled_def fun_eq_iff intro!: arg_cong2 [where f = "\<lambda>a b. d\<lparr>stats := a, connectors := b\<rparr>"])
    then show ?thesis
      using False Cons by simp
  next
    case True
    define d1 where "d1 = (stats_upd i (\<lambda>s. s\<lparr>state := HPD_ENABLED\<rparr>) d)
      \<lparr>connectors := map (\<lambda>c. if \<not> mst_port c \<and> conn_pin c = i then restore_polled c else c)
         (connectors d)\<rparr>"
    have i: "i \<notin> set pins" "distinct pins" using Cons.prems(1) by simp_all
    have step: "reenable_loop (i # pins) d = reenable_loop pins d1"
      using True Cons.prems(2)
      by (simp add: Let_def stats_upd_def reenable_connectors_eq d1_def)
    have wf1: "encoders_set (connectors d1)"
      using encoders_set_map [OF Cons.prems(2)] by (simp add: d1_def)
    have s1: "stats d1 p = (if p = i then (stats d i)\<lparr>state := HPD_ENABLED\<rparr> else stats d p)" for p
      by (simp add: d1_def stats_upd_def)
    have "reenabled pins d1 = reenabled (i # pins) d"
      using True i(1)
      by (auto simp add: reenabled_def d1_def stats_upd_def fun_eq_iff restore_polled_def conn_pin_def)
    then show ?thesis
      using Cons.IH [OF i(2) wf1] step by simp
  qed
qed

lemma reenable_loop_idle:
  "\<forall>p \<in> set pins. state (stats d p) \<noteq> HPD_DISABLED \<Longrightarrow> reenable_loop pins d = Some d"
  by (induction pins) simp_all

lemma reenable_work_eq:
  "intel_hpd_irq_storm_reenable_work d =
     (case reenable_loop for_each_hpd_pin d of
        None \<Rightarrow> None
      | Some d1 \<Rightarrow>
          Some (d1\<lparr>calls := calls d1 @
            (if display_irqs_enabled d1 \<and> hpd_irq_setup d1 then [Hpd_irq_setup] else [])\<rparr>))"
  by (simp add: intel_hpd_irq_storm_reenable_work_def call_hpd_irq_setup_def split: option.splits)

text \<open>
  C8, as the claim states it, fails when no pin is disabled: with display interrupts enabled
  and the hook set, the work still calls the hook, so it is not a no-op.
\<close>

theorem reenable_work_counterexample:
  "(\<lambda>p. state (stats example_dev_priv p)) = (\<lambda>p. HPD_ENABLED)
   \<and> intel_hpd_irq_storm_reenable_work example_dev_priv =
       Some (example_dev_priv\<lparr>calls := [Hpd_irq_setup]\<rparr>)
   \<and> calls example_dev_priv = []"
  by (simp add: reenable_work_eq reenable_loop_idle example_dev_priv_def example_stats_def)

text \<open>
  C8, amended. When \<^verbatim>\<open>intel_hpd_irq_storm_reenable_work\<close> runs on connectors that all have
  an encoder unless they are MST connectors, every pin of the loop whose state is disabled
  becomes enabled and every other pin keeps its statistics and state; every connector of
  such a pin that is not an MST connector gets its polling mode restored to its own
  preference, hotplug mode if it has none, and every other connector is unchanged; and if
  display interrupts are enabled and the platform has set the hook, the hook is called
  exactly once, at the end of the pass, and otherwise not at all. When no pin is disabled
  the pass changes no pin and no connector, and the call of the hook is its only effect.
\<close>

theorem reenable_work_pass:
  "(encoders_set (connectors dev_priv) \<longrightarrow>
      (\<exists>d'. intel_hpd_irq_storm_reenable_work dev_priv = Some d'
         \<and> (\<forall>p. stats d' p =
               (if p \<in> set for_each_hpd_pin \<and> state (stats dev_priv p) = HPD_DISABLED
                then (stats dev_priv p)\<lparr>state := HPD_ENABLED\<rparr> else stats dev_priv p))
         \<and> connectors d' =
             map (\<lambda>c. if \<not> mst_port c \<and> conn_pin c \<in> set for_each_hpd_pin
                          \<and> state (stats dev_priv (conn_pin c)) = HPD_DISABLED
                       then restore_polled c else c) (connectors dev_priv)
         \<and> calls d' = calls dev_priv @
             (if display_irqs_enabled dev_priv \<and> hpd_irq_setup dev_priv
              then [Hpd_irq_setup] else [])))
   \<and> ((\<forall>p \<in> set for_each_hpd_pin. state (stats dev_priv p) \<noteq> HPD_DISABLED) \<longrightarrow>
        intel_hpd_irq_storm_reenable_work dev_priv =
          Some (dev_priv\<lparr>calls := calls dev_priv @
            (if display_irqs_enabled dev_priv \<and> hpd_irq_setup dev_priv
             then [Hpd_irq_setup] else [])\<rparr>))"
proof (intro conjI impI)
  assume "encoders_set (connectors dev_priv)"
  then have "reenable_loop for_each_hpd_pin dev_priv = Some (reenabled for_each_hpd_pin dev_priv)"
    by (rule reenable_loop_eq [OF for_each_hpd_pin_distinct])
  then show "\<exists>d'. intel_hpd_irq_storm_reenable_work dev_priv = Some d'
         \<and> (\<forall>p. stats d' p =
               (if p \<in> set for_each_hpd_pin \<and> state (stats dev_priv p) = HPD_DISABLED
                then (stats dev_priv p)\<lparr>state := HPD_ENABLED\<rparr> else stats dev_priv p))
         \<and> connectors d' =
             map (\<lambda>c. if \<not> mst_port c \<and> conn_pin c \<in> set for_each_hpd_pin
                          \<and> state (stats dev_priv (conn_pin c)) = HPD_DISABLED
                       then restore_polled c else c) (connectors dev_priv)
         \<and> calls d' = calls dev_priv @
             (if display_irqs_enabled dev_priv \<and> hpd_irq_setup dev_priv
              then [Hpd_irq_setup] else [])"
    by (simp add: reenable_work_eq reenabled_def)
next
  assume "\<forall>p \<in> set for_each_hpd_pin. state (stats dev_priv p) \<noteq> HPD_DISABLED"
  then have "reenable_loop for_each_hpd_pin dev_priv = Some dev_priv"
    by (rule reenable_loop_idle)
  then show "intel_hpd_irq_storm_reenable_work dev_priv =
      Some (dev_priv\<lparr>calls := calls dev_priv @
        (if display_irqs_enabled dev_priv \<and> hpd_irq_setup dev_priv then [Hpd_irq_setup] else [])\<rparr>)"
    by (simp add: reenable_work_eq)
qed

theorem reenable_work_pass_witness:
  "(\<exists>d'. intel_hpd_irq_storm_reenable_work example_polling_dev_priv = Some d'
      \<and> state (stats d' HPD_PORT_B) = HPD_ENABLED
      \<and> connectors d' = [example_connector HPD_PORT_A DRM_CONNECTOR_POLL_CONNECT,
                          example_connector HPD_PORT_B DRM_CONNECTOR_POLL_HPD]
      \<and> calls d' = [Hpd_irq_setup])
   \<and> intel_hpd_irq_storm_reenable_work example_dev_priv =
       Some (example_dev_priv\<lparr>calls := [Hpd_irq_setup]\<rparr>)"
proof -
  have wf: "encoders_set (connectors example_polling_dev_priv)"
    by (simp add: encoders_set_def example_polling_dev_priv_def stats_upd_def example_connector_def)
  have idle: "\<forall>p \<in> set for_each_hpd_pin. state (stats example_dev_priv p) \<noteq> HPD_DISABLED"
    by (simp add: example_dev_priv_def example_stats_def)
  have e: "calls example_dev_priv = []" "display_irqs_enabled example_dev_priv"
    "hpd_irq_setup example_dev_priv"
    by (simp_all add: example_dev_priv_def)
  have b: "HPD_PORT_B \<in> set for_each_hpd_pin" "HPD_PORT_A \<in> set for_each_hpd_pin"
    "HPD_PORT_A \<noteq> HPD_PORT_B"
    by (simp_all add: for_each_hpd_pin_def hpd_pin_defs)
  have p: "calls example_polling_dev_priv = []" "display_irqs_enabled example_polling_dev_priv"
    "hpd_irq_setup example_polling_dev_priv"
    "state (stats example_polling_dev_priv HPD_PORT_B) = HPD_DISABLED"
    "state (stats example_polling_dev_priv HPD_PORT_A) = HPD_ENABLED"
    "connectors example_polling_dev_priv =
       [example_connector HPD_PORT_A DRM_CONNECTOR_POLL_CONNECT,
        (example_connector HPD_PORT_B DRM_CONNECTOR_POLL_HPD)
          \<lparr>polled := DRM_CONNECTOR_POLL_CONNECT OR DRM_CONNECTOR_POLL_DISCONNECT\<rparr>]"
    using b(3)
    by (simp_all add: example_polling_dev_priv_def stats_upd_def example_dev_priv_def
        example_stats_def)
  have r: "restore_polled ((example_connector HPD_PORT_B DRM_CONNECTOR_POLL_HPD)
      \<lparr>polled := DRM_CONNECTOR_POLL_CONNECT OR DRM_CONNECTOR_POLL_DISCONNECT\<rparr>)
      = example_connector HPD_PORT_B DRM_CONNECTOR_POLL_HPD"
    by (simp add: restore_polled_def example_connector_def DRM_CONNECTOR_POLL_HPD_def)
  have cp: "conn_pin (example_connector HPD_PORT_A DRM_CONNECTOR_POLL_CONNECT) = HPD_PORT_A"
    "conn_pin ((example_connector HPD_PORT_B DRM_CONNECTOR_POLL_HPD)
      \<lparr>polled := DRM_CONNECTOR_POLL_CONNECT OR DRM_CONNECTOR_POLL_DISCONNECT\<rparr>) = HPD_PORT_B"
    "\<not> mst_port ((example_connector HPD_PORT_B DRM_CONNECTOR_POLL_HPD)
      \<lparr>polled := DRM_CONNECTOR_POLL_CONNECT OR DRM_CONNECTOR_POLL_DISCONNECT\<rparr>)"
    by (simp_all add: conn_pin_def example_connector_def)
  from reenable_work_pass [of example_polling_dev_priv] wf
  obtain d' where d': "intel_hpd_irq_storm_reenable_work example_polling_dev_priv = Some d'"
    and st: "\<And>q. stats d' q =
      (if q \<in> set for_each_hpd_pin \<and> state (stats example_polling_dev_priv q) = HPD_DISABLED
       then (stats example_polling_dev_priv q)\<lparr>state := HPD_ENABLED\<rparr>
       else stats example_polling_dev_priv q)"
    and cs: "connectors d' =
      map (\<lambda>c. if \<not> mst_port c \<and> conn_pin c \<in> set for_each_hpd_pin
                   \<and> state (stats example_polling_dev_priv (conn_pin c)) = HPD_DISABLED
                then restore_polled c else c) (connectors example_polling_dev_priv)"
    and cl: "calls d' = calls example_polling_dev_priv @
      (if display_irqs_enabled example_polling_dev_priv \<and> hpd_irq_setup example_polling_dev_priv
       then [Hpd_irq_setup] else [])"
    by blast
  have 1: "state (stats d' HPD_PORT_B) = HPD_ENABLED"
    by (simp add: st b p)
  have 2: "connectors d' = [example_connector HPD_PORT_A DRM_CONNECTOR_POLL_CONNECT,
      example_connector HPD_PORT_B DRM_CONNECTOR_POLL_HPD]"
    by (simp add: cs p(4,5,6) b cp r)
  have 3: "calls d' = [Hpd_irq_setup]"
    by (simp add: cl p)
  have 4: "intel_hpd_irq_storm_reenable_work example_dev_priv =
      Some (example_dev_priv\<lparr>calls := [Hpd_irq_setup]\<rparr>)"
    using reenable_work_pass [of example_dev_priv] idle by (simp add: e)
  from d' 1 2 3 4 show ?thesis by blast
qed

end
